theory Spec2Isabelle
  imports Main "HOL-Library.Char_ord" "HOL-Library.List_Lexorder"
begin

section \<open>Pinboard to Raindrop migration: a model of the classification and reconciliation code\<close>

text \<open>
  The theory follows \<^verbatim>\<open>pinboard_to_raindrop.py\<close> and \<^verbatim>\<open>suggest_collections.py\<close>
  function by function. Python strings are \<^typ>\<open>string\<close>, ordered by character code and
  lexicographically, as Python orders \<^verbatim>\<open>str\<close>. Dictionaries whose keys are fixed by the
  code (the payload, the update body, a rule, the command-line namespace) are records with
  one field per key; a key that may be absent is an \<^typ>\<open>'a option\<close> field. A Pinboard
  export entry is a map from keys to strings. Exceptions are values: a function that can
  raise returns \<open>exc + 'a\<close>. What the code takes from Python's library without fixing its
  behaviour (\<^verbatim>\<open>int\<close>, \<^verbatim>\<open>str.lower\<close>, \<^verbatim>\<open>urlparse\<close>) is a parameter of the function
  that calls it, so that every theorem holds whatever the library returns. Logging and the
  pause between two requests change none of the values computed here and are left out.
\<close>

subsection \<open>Exceptions\<close>

text \<open>
  \<open>HTTPStatusError\<close> and \<open>RequestError\<close> are the two branches of \<^verbatim>\<open>httpx.HTTPError\<close>
  (a response with an error status; a transport, timeout or decoding failure). The others
  are Python's own; a JSON decoding error is a \<open>ValueError\<close>.
\<close>

datatype exc =
  HTTPStatusError | RequestError | ValueError | TypeError | KeyError | AttributeError
  | OverflowError

definition is_HTTPError :: "exc \<Rightarrow> bool" where
  "is_HTTPError e = (e = HTTPStatusError \<or> e = RequestError)"

subsection \<open>Decoded JSON\<close>

text \<open>
  What \<^verbatim>\<open>json.load\<close> returns. A float is \<open>m * 2 ^ e\<close>, an infinity (with its
  sign) or a NaN; an object is its list of items, looked up with \<^const>\<open>map_of\<close>.
\<close>

datatype pyfloat = Finite int int | Infinity bool | NaN

datatype json =
  JNull | JBool bool | JInt int | JFloat pyfloat | JStr string
  | JList "json list" | JObj "(string \<times> json) list"

fun is_JStr :: "json \<Rightarrow> bool" where
  "is_JStr (JStr s) = True"
| "is_JStr _ = False"

fun str_of :: "json \<Rightarrow> string" where
  "str_of (JStr s) = s"
| "str_of _ = []"

subsection \<open>Rules and their loader\<close>

record rule =
  rule_collection_id :: int
  rule_tags :: "string list"
  rule_name :: "json option"

text \<open>
  The body of the loop of \<^verbatim>\<open>load_collection_map\<close> for one entry. \<open>py_int\<close> is Python's
  builtin \<^verbatim>\<open>int\<close> on a decoded JSON value, a parameter of the model: it is the identity
  on integers and raises on values it cannot convert.
\<close>

definition load_rule :: "(json \<Rightarrow> exc + int) \<Rightarrow> json \<Rightarrow> exc + rule" where
  "load_rule py_int r =
     (case r of
        JObj d \<Rightarrow>
          (case (map_of d ''collection_id'', map_of d ''tags'') of
             (Some cid, Some tags) \<Rightarrow>
               (case tags of
                  JList ts \<Rightarrow>
                    if list_all is_JStr ts then
                      (case py_int cid of
                         Inl e \<Rightarrow> Inl e
                       | Inr n \<Rightarrow>
                           Inr \<lparr>rule_collection_id = n, rule_tags = map str_of ts,
                                rule_name = map_of d ''name''\<rparr>)
                    else Inl ValueError
                | _ \<Rightarrow> Inl ValueError)
           | _ \<Rightarrow> Inl ValueError)
      | _ \<Rightarrow> Inl ValueError)"

fun load_rules :: "(json \<Rightarrow> exc + int) \<Rightarrow> rule list \<Rightarrow> json list \<Rightarrow> exc + rule list" where
  "load_rules py_int rules [] = Inr rules"
| "load_rules py_int rules (r # rest) =
     (case load_rule py_int r of
        Inl e \<Rightarrow> Inl e
      | Inr x \<Rightarrow> load_rules py_int (rules @ [x]) rest)"

text \<open>
  \<open>data\<close> is the decoded content of the file, \<open>None\<close> when no path was given. (The copy of
  this function in \<^verbatim>\<open>suggest_collections.py\<close> is the same without the first branch.)
\<close>

definition load_collection_map :: "(json \<Rightarrow> exc + int) \<Rightarrow> json option \<Rightarrow> exc + rule list" where
  "load_collection_map py_int data =
     (case data of
        None \<Rightarrow> Inr []
      | Some (JList entries) \<Rightarrow> load_rules py_int [] entries
      | Some _ \<Rightarrow> Inl ValueError)"

text \<open>An instance of \<open>py_int\<close> for examples whose ids are JSON integers or booleans.\<close>

fun int_of_number :: "json \<Rightarrow> exc + int" where
  "int_of_number (JInt n) = Inr n"
| "int_of_number (JBool b) = Inr (if b then 1 else 0)"
| "int_of_number _ = Inl TypeError"

subsection \<open>Tag normalisation\<close>

text \<open>\<^verbatim>\<open>str.split(" ")\<close>: the pieces between single spaces, empty pieces included.\<close>

fun split_sp :: "string \<Rightarrow> string list" where
  "split_sp [] = [[]]"
| "split_sp (c # cs) =
     (if c = CHR '' '' then [] # split_sp cs
      else (case split_sp cs of [] \<Rightarrow> [[c]] | t # ts \<Rightarrow> (c # t) # ts))"

text \<open>\<^verbatim>\<open>" ".join\<close>, the inverse of the split.\<close>

fun join_sp :: "string list \<Rightarrow> string" where
  "join_sp [] = []"
| "join_sp [t] = t"
| "join_sp (t # u # ts) = t @ CHR '' '' # join_sp (u # ts)"

text \<open>
  \<open>lower\<close> is \<^verbatim>\<open>str.lower\<close>, the method of Python's strings, a parameter of the model: the
  code applies it to each tag, and what it returns for a string is the library's business.
\<close>

definition normalize_tags ::
  "(string \<Rightarrow> string) \<Rightarrow> string \<Rightarrow> bool \<Rightarrow> bool \<Rightarrow> string \<Rightarrow> string list" where
  "normalize_tags lower tag_str lowercase toread toread_tag =
     (let tags = filter (\<lambda>t. t \<noteq> []) (split_sp tag_str);
          tags = (if toread \<and> toread_tag \<noteq> [] then tags @ [toread_tag] else tags);
          tags = (if lowercase then map lower tags else tags)
      in sort (remdups tags))"

subsection \<open>Rule matching\<close>

text \<open>\<^verbatim>\<open>any(tag in tags for tag in rule["tags"])\<close>\<close>

definition rule_matches :: "string list \<Rightarrow> rule \<Rightarrow> bool" where
  "rule_matches tags r = list_ex (\<lambda>tag. tag \<in> set tags) (rule_tags r)"

fun guess_collection_from_tags :: "string list \<Rightarrow> rule list \<Rightarrow> int \<Rightarrow> int" where
  "guess_collection_from_tags tags [] default_id = default_id"
| "guess_collection_from_tags tags (r # rules) default_id =
     (if rule_matches tags r then rule_collection_id r
      else guess_collection_from_tags tags rules default_id)"

type_synonym entry = "string \<rightharpoonup> string"

definition select_collection_id ::
  "entry \<Rightarrow> string list \<Rightarrow> int \<Rightarrow> int option \<Rightarrow> rule list \<Rightarrow> int" where
  "select_collection_id entry tags default_id readlater_id rules =
     (case readlater_id of
        Some rid \<Rightarrow>
          if entry ''toread'' = Some ''yes'' then rid
          else guess_collection_from_tags tags rules default_id
      | None \<Rightarrow> guess_collection_from_tags tags rules default_id)"

subsection \<open>The payload builder\<close>

record args =
  arg_lowercase_tags :: bool
  arg_toread_tag :: string
  arg_collection_id :: int
  arg_readlater_collection_id :: "int option"
  arg_skip_existing :: bool
  arg_merge_tags :: bool
  arg_limit :: "int option"
  arg_dry_run :: bool

record payload =
  p_link :: string
  p_title :: string
  p_tags :: "string list"
  p_important :: bool
  p_collection :: int
  p_pleaseParse_mode :: string
  p_note :: "string option"
  p_excerpt :: "string option"
  p_created :: "string option"
  p_lastUpdate :: "string option"

text \<open>\<^verbatim>\<open>v = entry.get(k); if v: ...\<close>: the value when it is present and not empty.\<close>

definition get_nonempty :: "entry \<Rightarrow> string \<Rightarrow> string option" where
  "get_nonempty entry k =
     (case entry k of None \<Rightarrow> None | Some v \<Rightarrow> if v = [] then None else Some v)"

text \<open>\<^verbatim>\<open>entry["href"]\<close> raises \<open>KeyError\<close> when the key is missing.\<close>

definition pinboard_to_raindrop_payload ::
  "(string \<Rightarrow> string) \<Rightarrow> entry \<Rightarrow> args \<Rightarrow> rule list \<Rightarrow> exc + payload" where
  "pinboard_to_raindrop_payload lower entry a rules =
     (let toread_flag = (entry ''toread'' = Some ''yes'');
          tags = normalize_tags lower (case entry ''tags'' of None \<Rightarrow> [] | Some s \<Rightarrow> s)
                   (arg_lowercase_tags a) toread_flag (arg_toread_tag a)
      in case entry ''href'' of
           None \<Rightarrow> Inl KeyError
         | Some href \<Rightarrow>
             Inr \<lparr>p_link = href,
                  p_title = (case get_nonempty entry ''description'' of
                               Some d \<Rightarrow> d | None \<Rightarrow> href),
                  p_tags = tags,
                  p_important = (''starred'' \<in> set tags),
                  p_collection =
                    select_collection_id entry tags (arg_collection_id a)
                      (arg_readlater_collection_id a) rules,
                  p_pleaseParse_mode = ''tags'',
                  p_note = get_nonempty entry ''extended'',
                  p_excerpt = get_nonempty entry ''extended'',
                  p_created = get_nonempty entry ''time'',
                  p_lastUpdate = get_nonempty entry ''time''\<rparr>)"

subsection \<open>The Raindrop client\<close>

text \<open>
  An existing record as the search returns it: its \<^verbatim>\<open>_id\<close> and its \<^verbatim>\<open>tags\<close>, each
  possibly absent; the other fields are not read by the code.
\<close>

record raindrop =
  r_id :: "int option"
  r_tags :: "string list option"

text \<open>
  A response: whether \<^verbatim>\<open>raise_for_status\<close> passes, and what
  \<^verbatim>\<open>response.json().get("items", [])\<close> evaluates to (or raises).
\<close>

record response =
  status_ok :: bool
  resp_items :: "exc + raindrop list"

record update_body =
  u_tags :: "string list option"
  u_note :: "string option"
  u_excerpt :: "string option"
  u_important :: "bool option"

text \<open>
  The HTTP client is the environment: each call takes the state \<open>'w\<close> of the world (the
  remote service, the network) and returns a response or raises, with the next state.
  \<open>client_get\<close> is the search for a link in collection 0, \<open>client_post\<close> the creation of a
  record, \<open>client_put\<close> the update of the record with the given id.
\<close>

record 'w client =
  client_get :: "string \<Rightarrow> 'w \<Rightarrow> (exc + response) \<times> 'w"
  client_post :: "payload \<Rightarrow> 'w \<Rightarrow> (exc + response) \<times> 'w"
  client_put :: "int \<Rightarrow> update_body \<Rightarrow> 'w \<Rightarrow> (exc + response) \<times> 'w"

text \<open>
  The \<^verbatim>\<open>try\<close> block of \<^verbatim>\<open>find_existing_raindrop\<close> catches \<^verbatim>\<open>httpx.HTTPError\<close> only;
  anything else raised inside it leaves the function.
\<close>

definition catch_HTTPError ::
  "exc \<Rightarrow> exc + raindrop option \<times> int option" where
  "catch_HTTPError e = (if is_HTTPError e then Inr (None, None) else Inl e)"

definition find_existing_raindrop ::
  "'w client \<Rightarrow> string \<Rightarrow> 'w \<Rightarrow> (exc + raindrop option \<times> int option) \<times> 'w" where
  "find_existing_raindrop client link w =
     (case client_get client link w of
        (Inl e, w') \<Rightarrow> (catch_HTTPError e, w')
      | (Inr resp, w') \<Rightarrow>
          if \<not> status_ok resp then (catch_HTTPError HTTPStatusError, w')
          else
            (case resp_items resp of
               Inl e \<Rightarrow> (catch_HTTPError e, w')
             | Inr [] \<Rightarrow> (Inr (None, None), w')
             | Inr (item # _) \<Rightarrow>
                 (case r_id item of
                    None \<Rightarrow> (catch_HTTPError KeyError, w')
                  | Some i \<Rightarrow> (Inr (Some item, Some i), w'))))"

text \<open>
  \<^verbatim>\<open>client.post\<close> stands outside the \<^verbatim>\<open>try\<close>: what it raises leaves the function. Inside,
  an error status is caught and reported as \<open>False\<close>.
\<close>

definition create_raindrop :: "'w client \<Rightarrow> payload \<Rightarrow> 'w \<Rightarrow> (exc + bool) \<times> 'w" where
  "create_raindrop client pl w =
     (case client_post client pl w of
        (Inl e, w') \<Rightarrow> (Inl e, w')
      | (Inr resp, w') \<Rightarrow> (Inr (status_ok resp), w'))"

definition empty_body :: update_body where
  "empty_body = \<lparr>u_tags = None, u_note = None, u_excerpt = None, u_important = None\<rparr>"

text \<open>\<^verbatim>\<open>existing.get("tags", [])\<close>\<close>

definition existing_tags :: "raindrop \<Rightarrow> string list" where
  "existing_tags existing = (case r_tags existing of None \<Rightarrow> [] | Some ts \<Rightarrow> ts)"

text \<open>The \<^verbatim>\<open>update_body\<close> dictionary that \<^verbatim>\<open>update_raindrop\<close> fills in before it writes.\<close>

definition build_update_body :: "payload \<Rightarrow> raindrop \<Rightarrow> bool \<Rightarrow> update_body" where
  "build_update_body pl existing merge =
     \<lparr>u_tags =
        (if merge then Some (sort (remdups (existing_tags existing @ p_tags pl))) else None),
      u_note = (case p_note pl of Some n \<Rightarrow> if n \<noteq> [] then Some n else None | None \<Rightarrow> None),
      u_excerpt =
        (case p_excerpt pl of Some n \<Rightarrow> if n \<noteq> [] then Some n else None | None \<Rightarrow> None),
      u_important = (if p_important pl then Some True else None)\<rparr>"

definition update_raindrop ::
  "'w client \<Rightarrow> int \<Rightarrow> payload \<Rightarrow> raindrop \<Rightarrow> bool \<Rightarrow> 'w \<Rightarrow> (exc + bool) \<times> 'w" where
  "update_raindrop client raindrop_id pl existing merge w =
     (let body = build_update_body pl existing merge in
      if body = empty_body then (Inr True, w)
      else
        (case client_put client raindrop_id body w of
           (Inl e, w') \<Rightarrow> (Inl e, w')
         | (Inr resp, w') \<Rightarrow> (Inr (status_ok resp), w')))"

subsection \<open>The batch loop of \<^verbatim>\<open>main\<close>\<close>

record stats =
  processed :: nat
  created :: nat
  skipped_existing :: nat
  updated :: nat
  failed :: nat
  duplicate_input :: nat

definition stats0 :: stats where
  "stats0 = \<lparr>processed = 0, created = 0, skipped_existing = 0, updated = 0, failed = 0,
             duplicate_input = 0\<rparr>"

text \<open>
  The state the loop carries: the set \<^verbatim>\<open>seen_links\<close>, the counters, and the world the
  client talks to.
\<close>

record 'w loop_state =
  seen_links :: "string set"
  counters :: stats
  world :: 'w

definition state0 :: "'w \<Rightarrow> 'w loop_state" where
  "state0 w = \<lparr>seen_links = {}, counters = stats0, world = w\<rparr>"

text \<open>
  Truth values of Python, for the two results of the lookup: a dictionary is true when it
  has a key, an integer when it is not zero, \<^verbatim>\<open>None\<close> never.
\<close>

definition truthy_item :: "raindrop option \<Rightarrow> bool" where
  "truthy_item it =
     (case it of None \<Rightarrow> False | Some d \<Rightarrow> r_id d \<noteq> None \<or> r_tags d \<noteq> None)"

definition truthy_id :: "int option \<Rightarrow> bool" where
  "truthy_id i = (case i of None \<Rightarrow> False | Some n \<Rightarrow> n \<noteq> 0)"

text \<open>
  The three branches of the \<^verbatim>\<open>if\<close>/\<^verbatim>\<open>elif\<close>/\<^verbatim>\<open>else\<close> of \<^verbatim>\<open>main\<close>, tested in the
  order of the source. A merge carries the id and the record it updates.
\<close>

datatype action = SKIP | MERGE int raindrop | CREATE

definition reconcile_action :: "args \<Rightarrow> raindrop option \<Rightarrow> int option \<Rightarrow> action" where
  "reconcile_action a existing_item existing_id =
     (if truthy_item existing_item \<and> arg_skip_existing a \<and> \<not> arg_merge_tags a then SKIP
      else if truthy_item existing_item \<and> arg_merge_tags a \<and> truthy_id existing_id then
        (case (existing_item, existing_id) of
           (Some item, Some i) \<Rightarrow> MERGE i item
         | _ \<Rightarrow> CREATE)
      else CREATE)"

text \<open>\<^verbatim>\<open>if args.limit and stats["processed"] >= args.limit: break\<close>\<close>

definition limit_reached :: "args \<Rightarrow> stats \<Rightarrow> bool" where
  "limit_reached a s =
     (case arg_limit a of None \<Rightarrow> False | Some l \<Rightarrow> l \<noteq> 0 \<and> l \<le> int (processed s))"

definition count_write :: "bool \<Rightarrow> (stats \<Rightarrow> stats) \<Rightarrow> stats \<Rightarrow> stats" where
  "count_write ok bump s = (if ok then bump s else s\<lparr>failed := failed s + 1\<rparr>)"

text \<open>
  The search is made only when one of the two options needs its result; otherwise
  \<^verbatim>\<open>existing_item\<close> and \<^verbatim>\<open>existing_id\<close> stay \<^verbatim>\<open>None\<close>.
\<close>

definition lookup_existing ::
  "args \<Rightarrow> 'w client \<Rightarrow> string \<Rightarrow> 'w \<Rightarrow> (exc + raindrop option \<times> int option) \<times> 'w" where
  "lookup_existing a client href w =
     (if arg_skip_existing a \<or> arg_merge_tags a then find_existing_raindrop client href w
      else (Inr (None, None), w))"

text \<open>
  The lookup and the write for one new link that is not a dry run, then
  \<^verbatim>\<open>stats["processed"] += 1\<close>. An exception that nothing catches ends the run.
\<close>

definition reconcile ::
  "args \<Rightarrow> 'w client \<Rightarrow> string \<Rightarrow> payload \<Rightarrow> 'w loop_state \<Rightarrow> exc + 'w loop_state" where
  "reconcile a client href pl st =
     (case lookup_existing a client href (world st) of
        (Inl e, w1) \<Rightarrow> Inl e
      | (Inr (existing_item, existing_id), w1) \<Rightarrow>
          (case (case reconcile_action a existing_item existing_id of
                   SKIP \<Rightarrow>
                     (Inr (\<lambda>s. s\<lparr>skipped_existing := skipped_existing s + 1\<rparr>), w1)
                 | MERGE i item \<Rightarrow>
                     (case update_raindrop client i pl item True w1 of
                        (Inl e, w2) \<Rightarrow> (Inl e, w2)
                      | (Inr ok, w2) \<Rightarrow>
                          (Inr (count_write ok (\<lambda>s. s\<lparr>updated := updated s + 1\<rparr>)), w2))
                 | CREATE \<Rightarrow>
                     (case create_raindrop client pl w1 of
                        (Inl e, w2) \<Rightarrow> (Inl e, w2)
                      | (Inr ok, w2) \<Rightarrow>
                          (Inr (count_write ok (\<lambda>s. s\<lparr>created := created s + 1\<rparr>)), w2))) of
             (Inl e, w2) \<Rightarrow> Inl e
           | (Inr count, w2) \<Rightarrow>
               Inr (st\<lparr>counters :=
                          (count (counters st))\<lparr>processed := processed (counters st) + 1\<rparr>,
                        world := w2\<rparr>)))"

text \<open>One iteration of the loop, after the test of the limit.\<close>

definition process_entry ::
  "(string \<Rightarrow> string) \<Rightarrow> args \<Rightarrow> rule list \<Rightarrow> 'w client \<Rightarrow> 'w loop_state \<Rightarrow> entry
     \<Rightarrow> exc + 'w loop_state" where
  "process_entry lower a rules client st entry =
     (case get_nonempty entry ''href'' of
        None \<Rightarrow> Inr st
      | Some href \<Rightarrow>
          if href \<in> seen_links st then
            Inr (st\<lparr>counters :=
                       (counters st)\<lparr>duplicate_input := duplicate_input (counters st) + 1\<rparr>\<rparr>)
          else
            (let st1 = st\<lparr>seen_links := insert href (seen_links st)\<rparr> in
             case pinboard_to_raindrop_payload lower entry a rules of
               Inl e \<Rightarrow> Inl e
             | Inr pl \<Rightarrow>
                 if arg_dry_run a then
                   Inr (st1\<lparr>counters :=
                              (counters st1)\<lparr>processed := processed (counters st1) + 1\<rparr>\<rparr>)
                 else reconcile a client href pl st1))"

fun main_loop ::
  "(string \<Rightarrow> string) \<Rightarrow> args \<Rightarrow> rule list \<Rightarrow> 'w client \<Rightarrow> 'w loop_state \<Rightarrow> entry list
     \<Rightarrow> exc + 'w loop_state" where
  "main_loop lower a rules client st [] = Inr st"
| "main_loop lower a rules client st (entry # pinboard_posts) =
     (if limit_reached a (counters st) then Inr st
      else
        (case process_entry lower a rules client st entry of
           Inl e \<Rightarrow> Inl e
         | Inr st' \<Rightarrow> main_loop lower a rules client st' pinboard_posts))"

text \<open>
  What the loop does with an entry whose link it has already seen; the links of a batch;
  and what holds of the state between two iterations.
\<close>

definition bump_duplicate :: "'w loop_state \<Rightarrow> 'w loop_state" where
  "bump_duplicate st =
     st\<lparr>counters := (counters st)\<lparr>duplicate_input := duplicate_input (counters st) + 1\<rparr>\<rparr>"

definition hrefs :: "entry list \<Rightarrow> string set" where
  "hrefs batch = {h. \<exists>e \<in> set batch. get_nonempty e ''href'' = Some h}"

definition loop_inv :: "'w loop_state \<Rightarrow> bool" where
  "loop_inv st \<longleftrightarrow> finite (seen_links st) \<and> processed (counters st) = card (seen_links st)"

subsection \<open>The reclassifier of \<^verbatim>\<open>suggest_collections.py\<close>\<close>

fun guess_collection :: "string list \<Rightarrow> rule list \<Rightarrow> int option" where
  "guess_collection tags [] = None"
| "guess_collection tags (r # rules) =
     (if rule_matches tags r then Some (rule_collection_id r)
      else guess_collection tags rules)"

text \<open>\<^verbatim>\<open>host.startswith("www.")\<close> and \<^verbatim>\<open>host[4:]\<close>\<close>

definition strip_www :: "string \<Rightarrow> string" where
  "strip_www host = (if take 4 host = ''www.'' then drop 4 host else host)"

text \<open>
  \<open>netloc\<close> is \<^verbatim>\<open>urlparse(link).netloc\<close> of the standard library, a parameter of the
  model; it raises \<open>ValueError\<close> on a link it rejects.
\<close>

definition suggest_new_collection ::
  "(string \<Rightarrow> exc + string) \<Rightarrow> string list \<Rightarrow> string \<Rightarrow> exc + string option" where
  "suggest_new_collection netloc tags link =
     (case tags of
        t # _ \<Rightarrow> Inr (Some t)
      | [] \<Rightarrow>
          (case netloc link of
             Inl e \<Rightarrow> Inl e
           | Inr host \<Rightarrow>
               (let host = strip_www host in
                Inr (if host = [] then None else Some host))))"

subsection \<open>Clients and library functions for the examples\<close>

text \<open>
  An instance of \<open>lower\<close> for the examples, which hold ASCII characters only: there
  \<^verbatim>\<open>str.lower\<close> moves the letters A to Z to a to z and leaves every other character.
\<close>

definition ascii_lower_char :: "char \<Rightarrow> char" where
  "ascii_lower_char c =
     (if CHR ''A'' \<le> c \<and> c \<le> CHR ''Z'' then char_of (of_char c + (32::nat)) else c)"

definition ascii_lower :: "string \<Rightarrow> string" where
  "ascii_lower s = map ascii_lower_char s"

text \<open>
  A client that records every call it receives, in order. The search answers with
  \<open>lookup\<close>; a creation or an update is accepted when \<open>ok\<close> holds and answered with an error
  status otherwise.
\<close>

datatype call = Get string | Post payload | Put int update_body

definition recording_client :: "(string \<Rightarrow> exc + response) \<Rightarrow> bool \<Rightarrow> (call list) client" where
  "recording_client lookup ok =
     \<lparr>client_get = (\<lambda>link w. (lookup link, w @ [Get link])),
      client_post = (\<lambda>pl w. (Inr \<lparr>status_ok = ok, resp_items = Inr []\<rparr>, w @ [Post pl])),
      client_put = (\<lambda>i body w. (Inr \<lparr>status_ok = ok, resp_items = Inr []\<rparr>, w @ [Put i body]))\<rparr>"

definition found_items :: "raindrop list \<Rightarrow> string \<Rightarrow> exc + response" where
  "found_items items link = Inr \<lparr>status_ok = True, resp_items = Inr items\<rparr>"

definition lookup_down :: "string \<Rightarrow> exc + response" where
  "lookup_down link = Inl RequestError"

text \<open>
  The network location of a link of the shape \<^verbatim>\<open>scheme://host/path\<close>, as \<^verbatim>\<open>urlparse\<close>
  finds it: what follows the first \<^verbatim>\<open>//\<close> after the scheme, up to the next \<^verbatim>\<open>/\<close>,
  \<^verbatim>\<open>?\<close> or \<^verbatim>\<open>#\<close>. It instantiates the parameter \<open>netloc\<close> in the examples.
\<close>

definition after_scheme :: "string \<Rightarrow> string" where
  "after_scheme url =
     (case dropWhile (\<lambda>c. c \<noteq> CHR '':'') url of [] \<Rightarrow> url | _ # rest \<Rightarrow> rest)"

definition simple_netloc :: "string \<Rightarrow> exc + string" where
  "simple_netloc url =
     (let u = after_scheme url in
      if take 2 u = ''//''
      then Inr (takeWhile (\<lambda>c. c \<noteq> CHR ''/'' \<and> c \<noteq> CHR ''?'' \<and> c \<noteq> CHR ''#'') (drop 2 u))
      else Inr [])"

subsection \<open>The specification's tables, for comparison with the code\<close>

datatype verdict = Create | Skip | Merge

text \<open>
  The decision table of the reconciliation engine as the specification prints it: rows
  (found, skipExisting, mergeTags).
\<close>

fun decision_table :: "bool \<Rightarrow> bool \<Rightarrow> bool \<Rightarrow> verdict" where
  "decision_table False skip merge = Create"
| "decision_table True True False = Skip"
| "decision_table True True True = Merge"
| "decision_table True False True = Merge"
| "decision_table True False False = Create"

fun verdict_of :: "action \<Rightarrow> verdict" where
  "verdict_of SKIP = Skip"
| "verdict_of (MERGE i item) = Merge"
| "verdict_of CREATE = Create"

text \<open>
  A payload that brings nothing but tags to a merge: no note and no excerpt, or empty ones,
  and not important.
\<close>

definition no_note :: "payload \<Rightarrow> bool" where
  "no_note pl \<longleftrightarrow>
     (p_note pl = None \<or> p_note pl = Some []) \<and> (p_excerpt pl = None \<or> p_excerpt pl = Some [])
     \<and> \<not> p_important pl"

text \<open>
  The checks \<^verbatim>\<open>load_collection_map\<close> makes on one entry: an object that has the keys
  \<^verbatim>\<open>collection_id\<close> and \<^verbatim>\<open>tags\<close>, the latter a list of strings.
\<close>

definition rule_entry_ok :: "json \<Rightarrow> bool" where
  "rule_entry_ok r =
     (case r of
        JObj d \<Rightarrow>
          (case (map_of d ''collection_id'', map_of d ''tags'') of
             (Some cid, Some (JList ts)) \<Rightarrow> list_all is_JStr ts
           | _ \<Rightarrow> False)
      | _ \<Rightarrow> False)"

text \<open>
  The specification's requirement on the rule file: a list; each entry an object with a
  destination id and a non-empty list of string tags.
\<close>

definition spec_entry_ok :: "json \<Rightarrow> bool" where
  "spec_entry_ok r =
     (case r of
        JObj d \<Rightarrow>
          (case (map_of d ''collection_id'', map_of d ''tags'') of
             (Some cid, Some (JList ts)) \<Rightarrow> list_all is_JStr ts \<and> ts \<noteq> []
           | _ \<Rightarrow> False)
      | _ \<Rightarrow> False)"

definition spec_well_formed :: "json \<Rightarrow> bool" where
  "spec_well_formed data =
     (case data of JList entries \<Rightarrow> list_all spec_entry_ok entries | _ \<Rightarrow> False)"

text \<open>The id of an entry that carries a JSON integer, and the rule such an entry is loaded as.\<close>

definition integral_id :: "json \<Rightarrow> bool" where
  "integral_id r =
     (case r of
        JObj d \<Rightarrow> (case map_of d ''collection_id'' of Some (JInt n) \<Rightarrow> True | _ \<Rightarrow> False)
      | _ \<Rightarrow> False)"

definition rule_of_entry :: "json \<Rightarrow> rule" where
  "rule_of_entry r =
     (case r of
        JObj d \<Rightarrow>
          \<lparr>rule_collection_id = (case map_of d ''collection_id'' of Some (JInt n) \<Rightarrow> n | _ \<Rightarrow> 0),
           rule_tags = (case map_of d ''tags'' of Some (JList ts) \<Rightarrow> map str_of ts | _ \<Rightarrow> []),
           rule_name = map_of d ''name''\<rparr>
      | _ \<Rightarrow> \<lparr>rule_collection_id = 0, rule_tags = [], rule_name = None\<rparr>)"

section \<open>Properties\<close>

subsection \<open>Rule matching\<close>

lemma rule_matches_iff: "rule_matches tags r \<longleftrightarrow> set (rule_tags r) \<inter> set tags \<noteq> {}"
  by (auto simp: rule_matches_def list_ex_iff)

lemma guess_find:
  "guess_collection_from_tags tags rules d =
     (case find (rule_matches tags) rules of Some r \<Rightarrow> rule_collection_id r | None \<Rightarrow> d)"
  by (induction rules) auto

lemma guess_no_match:
  "\<forall>r \<in> set rules. \<not> rule_matches tags r \<Longrightarrow> guess_collection_from_tags tags rules d = d"
  by (induction rules) auto

lemma guess_first_match:
  "\<forall>r \<in> set pre. \<not> rule_matches tags r \<Longrightarrow> rule_matches tags r \<Longrightarrow>
   guess_collection_from_tags tags (pre @ r # post) d = rule_collection_id r"
  by (induction pre) auto

text \<open>
  Claim C3. For every tag list, every ordered rule list and every default id,
  \<open>guess_collection_from_tags\<close> returns the collection id of the first rule, in list order,
  whose tags share an element with the tag list, and the default id when no rule does. So a
  rule that matches wins over every later rule, whatever the size of the overlap.
\<close>

theorem guess_collection_from_tags_first_match:
  "guess_collection_from_tags tags rules d =
     (case find (\<lambda>r. set (rule_tags r) \<inter> set tags \<noteq> {}) rules of
        Some r \<Rightarrow> rule_collection_id r | None \<Rightarrow> d)
   \<and> ((\<forall>r \<in> set pre. set (rule_tags r) \<inter> set tags = {}) \<and> set (rule_tags r) \<inter> set tags \<noteq> {}
        \<longrightarrow> guess_collection_from_tags tags (pre @ r # post) d = rule_collection_id r)
   \<and> ((\<forall>r \<in> set rules. set (rule_tags r) \<inter> set tags = {})
        \<longrightarrow> guess_collection_from_tags tags rules d = d)"
proof (intro conjI impI)
  have "rule_matches tags = (\<lambda>r. set (rule_tags r) \<inter> set tags \<noteq> {})"
    by (rule ext) (simp add: rule_matches_iff)
  then show "guess_collection_from_tags tags rules d =
     (case find (\<lambda>r. set (rule_tags r) \<inter> set tags \<noteq> {}) rules of
        Some r \<Rightarrow> rule_collection_id r | None \<Rightarrow> d)"
    using guess_find [of tags rules d] by simp
next
  assume "(\<forall>r \<in> set pre. set (rule_tags r) \<inter> set tags = {}) \<and> set (rule_tags r) \<inter> set tags \<noteq> {}"
  then show "guess_collection_from_tags tags (pre @ r # post) d = rule_collection_id r"
    by (intro guess_first_match) (simp_all add: rule_matches_iff)
next
  assume "\<forall>r \<in> set rules. set (rule_tags r) \<inter> set tags = {}"
  then show "guess_collection_from_tags tags rules d = d"
    by (intro guess_no_match) (simp add: rule_matches_iff)
qed

text \<open>
  The examples of the specification: one rule for \<open>work\<close>; and a rule with one common tag
  placed before a rule with three.
\<close>

theorem guess_collection_from_tags_first_match_witness:
  "guess_collection_from_tags [''work'', ''x'']
     [\<lparr>rule_collection_id = 555, rule_tags = [''work''], rule_name = None\<rparr>] 0 = 555
   \<and> guess_collection_from_tags [''y'']
     [\<lparr>rule_collection_id = 555, rule_tags = [''work''], rule_name = None\<rparr>] 0 = 0
   \<and> guess_collection_from_tags [''a'', ''b'', ''c'']
     ([\<lparr>rule_collection_id = 9, rule_tags = [''z''], rule_name = None\<rparr>] @
      \<lparr>rule_collection_id = 1, rule_tags = [''a''], rule_name = None\<rparr> #
      [\<lparr>rule_collection_id = 2, rule_tags = [''a'', ''b'', ''c''], rule_name = None\<rparr>]) 0 = 1"
proof -
  let ?w = "\<lparr>rule_collection_id = 555, rule_tags = [''work''], rule_name = None\<rparr>"
  let ?z = "\<lparr>rule_collection_id = 9, rule_tags = [''z''], rule_name = None\<rparr>"
  let ?a = "\<lparr>rule_collection_id = 1, rule_tags = [''a''], rule_name = None\<rparr>"
  let ?abc = "\<lparr>rule_collection_id = 2, rule_tags = [''a'', ''b'', ''c''], rule_name = None\<rparr>"
  have 1: "guess_collection_from_tags [''work'', ''x''] [?w] 0 = 555"
    using guess_collection_from_tags_first_match [of "[''work'', ''x'']" "[?w]" 0 "[]" ?w "[]"]
    by simp
  have 2: "guess_collection_from_tags [''y''] [?w] 0 = 0"
    using guess_collection_from_tags_first_match [of "[''y'']" "[?w]" 0 "[]" ?w "[]"]
    by simp
  have 3: "guess_collection_from_tags [''a'', ''b'', ''c''] ([?z] @ ?a # [?abc]) 0 = 1"
    using guess_collection_from_tags_first_match
      [of "[''a'', ''b'', ''c'']" "[]" 0 "[?z]" ?a "[?abc]"]
    by simp
  from 1 2 3 show ?thesis by blast
qed

subsection \<open>The read-later override\<close>

text \<open>
  Claim C4. When a read-later collection id is configured and the entry has
  \<^verbatim>\<open>toread == "yes"\<close>, \<open>select_collection_id\<close> returns that id, whatever the rules say;
  in every other case it returns what the rule matcher returns for the default id.
\<close>

theorem select_collection_id_override:
  "(entry ''toread'' = Some ''yes'' \<longrightarrow>
      select_collection_id entry tags d (Some rid) rules = rid)
   \<and> (entry ''toread'' \<noteq> Some ''yes'' \<longrightarrow>
      select_collection_id entry tags d (Some rid) rules =
        guess_collection_from_tags tags rules d)
   \<and> select_collection_id entry tags d None rules = guess_collection_from_tags tags rules d"
  by (simp add: select_collection_id_def)

text \<open>An entry marked to read whose tags match a rule for collection 999: the override 42 wins.\<close>

theorem select_collection_id_override_witness:
  "select_collection_id [''href'' \<mapsto> ''https://later.example'', ''toread'' \<mapsto> ''yes'']
     [''later'', ''read''] 0 (Some 42)
     [\<lparr>rule_collection_id = 999, rule_tags = [''read''], rule_name = None\<rparr>] = 42
   \<and> guess_collection_from_tags [''later'', ''read'']
     [\<lparr>rule_collection_id = 999, rule_tags = [''read''], rule_name = None\<rparr>] 0 = 999
   \<and> select_collection_id [''href'' \<mapsto> ''https://later.example'', ''toread'' \<mapsto> ''no'']
     [''later'', ''read''] 0 (Some 42)
     [\<lparr>rule_collection_id = 999, rule_tags = [''read''], rule_name = None\<rparr>] = 999"
proof -
  let ?r = "\<lparr>rule_collection_id = 999, rule_tags = [''read''], rule_name = None\<rparr>"
  have g: "guess_collection_from_tags [''later'', ''read''] [?r] 0 = 999"
    by (simp add: rule_matches_def)
  have 1: "select_collection_id [''href'' \<mapsto> ''https://later.example'', ''toread'' \<mapsto> ''yes'']
     [''later'', ''read''] 0 (Some 42) [?r] = 42"
    using select_collection_id_override
      [of "[''href'' \<mapsto> ''https://later.example'', ''toread'' \<mapsto> ''yes'']"
          "[''later'', ''read'']" 0 42 "[?r]"]
    by simp
  have 2: "select_collection_id [''href'' \<mapsto> ''https://later.example'', ''toread'' \<mapsto> ''no'']
     [''later'', ''read''] 0 (Some 42) [?r] = 999"
    using select_collection_id_override
      [of "[''href'' \<mapsto> ''https://later.example'', ''toread'' \<mapsto> ''no'']"
          "[''later'', ''read'']" 0 42 "[?r]"] g
    by simp
  from 1 2 g show ?thesis by blast
qed

subsection \<open>Tag normalisation\<close>

lemma split_sp_not_Nil: "split_sp s \<noteq> []"
  by (induction s) (auto split: list.splits)

lemma join_sp_Cons: "ts \<noteq> [] \<Longrightarrow> join_sp (t # ts) = t @ CHR '' '' # join_sp ts"
  by (cases ts) auto

lemma join_split_sp: "join_sp (split_sp s) = s"
proof (induction s)
  case Nil
  show ?case by simp
next
  case (Cons c cs)
  show ?case
  proof (cases "c = CHR '' ''")
    case True
    with Cons show ?thesis by (simp add: join_sp_Cons split_sp_not_Nil)
  next
    case False
    obtain t ts where ts: "split_sp cs = t # ts"
      using split_sp_not_Nil [of cs] by (cases "split_sp cs") auto
    with Cons False show ?thesis by (cases ts) auto
  qed
qed

lemma split_sp_no_space: "t \<in> set (split_sp s) \<Longrightarrow> CHR '' '' \<notin> set t"
  by (induction s arbitrary: t) (auto split: if_splits list.splits)

lemma normalize_tags_sorted: "sorted_wrt (<) (normalize_tags lower s lc tr tt)"
  by (simp add: normalize_tags_def Let_def strict_sorted_iff)

lemma normalize_tags_set:
  "set (normalize_tags lower s lc tr tt) =
     (if lc then lower else id) `
       ({t \<in> set (split_sp s). t \<noteq> []} \<union> (if tr \<and> tt \<noteq> [] then {tt} else {}))"
  by (auto simp: normalize_tags_def Let_def)

lemma normalize_tags_empty:
  "normalize_tags lower [] lc tr tt =
     (if tr \<and> tt \<noteq> [] then [if lc then lower tt else tt] else [])"
  by (simp add: normalize_tags_def)


text \<open>
  Claim C5. For every raw string and every behaviour of \<^verbatim>\<open>str.lower\<close>, \<open>normalize_tags\<close>
  returns a strictly ascending list (sorted in the lexicographic order, without duplicates)
  whose elements are exactly the non-empty pieces of the raw string between single spaces,
  together with the injected tag when the flag is set and the tag is not empty, each passed
  through \<^verbatim>\<open>str.lower\<close> when the lowercase flag is set. The pieces are those of a split on
  single spaces: joined with single spaces they give the raw string back, and none contains
  a space. \<open>"a b a"\<close> gives \<open>["a", "b"]\<close>; the empty string gives the empty list, or the
  injected tag alone; and where \<^verbatim>\<open>str.lower\<close> turns \<open>Work\<close> into \<open>work\<close> and keeps
  \<open>project-x\<close>, \<open>"Work project-x"\<close> with lowercasing gives \<open>["project-x", "work"]\<close>. The
  function is total: it raises nothing.
\<close>

theorem normalize_tags_spec:
  "sorted_wrt (<) (normalize_tags lower s lc tr tt)
   \<and> set (normalize_tags lower s lc tr tt) =
       (if lc then lower else id) `
         ({t \<in> set (split_sp s). t \<noteq> []} \<union> (if tr \<and> tt \<noteq> [] then {tt} else {}))
   \<and> join_sp (split_sp s) = s
   \<and> (\<forall>t \<in> set (split_sp s). CHR '' '' \<notin> set t)
   \<and> normalize_tags lower ''a b a'' False False tt = [''a'', ''b'']
   \<and> normalize_tags lower [] lc tr tt =
       (if tr \<and> tt \<noteq> [] then [if lc then lower tt else tt] else [])
   \<and> (lower ''Work'' = ''work'' \<and> lower ''project-x'' = ''project-x'' \<longrightarrow>
        normalize_tags lower ''Work project-x'' True False tt = [''project-x'', ''work''])"
proof (intro conjI ballI impI)
  show "sorted_wrt (<) (normalize_tags lower s lc tr tt)"
    by (rule normalize_tags_sorted)
  show "set (normalize_tags lower s lc tr tt) =
       (if lc then lower else id) `
         ({t \<in> set (split_sp s). t \<noteq> []} \<union> (if tr \<and> tt \<noteq> [] then {tt} else {}))"
    by (rule normalize_tags_set)
  show "join_sp (split_sp s) = s"
    by (rule join_split_sp)
  show "CHR '' '' \<notin> set t" if "t \<in> set (split_sp s)" for t
    using that by (rule split_sp_no_space)
  show "normalize_tags lower ''a b a'' False False tt = [''a'', ''b'']"
    by (simp add: normalize_tags_def)
  show "normalize_tags lower [] lc tr tt =
       (if tr \<and> tt \<noteq> [] then [if lc then lower tt else tt] else [])"
    by (rule normalize_tags_empty)
  show "normalize_tags lower ''Work project-x'' True False tt = [''project-x'', ''work'']"
    if "lower ''Work'' = ''work'' \<and> lower ''project-x'' = ''project-x''"
    using that by (simp add: normalize_tags_def)
qed

text \<open>
  A raw string of ASCII characters with a repeated space, a duplicate and capitals, with
  the injected tag; and the tags of the first smoke test.
\<close>

theorem normalize_tags_spec_witness:
  "normalize_tags ascii_lower ''B  a B'' True True ''T'' = [''a'', ''b'', ''t'']
   \<and> sorted_wrt (<) [''a'', ''b'', ''t'']
   \<and> set [''a'', ''b'', ''t''] =
       ascii_lower ` ({t \<in> set [''B'', [], ''a'', ''B'']. t \<noteq> []} \<union> {''T''})
   \<and> join_sp [''B'', [], ''a'', ''B''] = ''B  a B''
   \<and> CHR '' '' \<notin> set ''B''
   \<and> normalize_tags ascii_lower ''Work project-x'' True False ''toread'' =
       [''project-x'', ''work'']"
proof -
  have v: "normalize_tags ascii_lower ''B  a B'' True True ''T'' = [''a'', ''b'', ''t'']"
    by code_simp
  have sp: "split_sp ''B  a B'' = [''B'', [], ''a'', ''B'']"
    by simp
  have l: "ascii_lower ''Work'' = ''work'' \<and> ascii_lower ''project-x'' = ''project-x''"
    by code_simp
  note th0 = normalize_tags_spec [of ascii_lower "''B  a B''" True True "''T''"]
  note th = th0 [unfolded v sp]
  from th have a: "sorted_wrt (<) [''a'', ''b'', ''t'']"
    by (rule conjunct1)
  from th have b: "set [''a'', ''b'', ''t''] =
      (if True then ascii_lower else id) `
        ({t \<in> set [''B'', [], ''a'', ''B'']. t \<noteq> []} \<union> (if True \<and> ''T'' \<noteq> [] then {''T''} else {}))"
    by (elim conjE)
  from th have c: "join_sp [''B'', [], ''a'', ''B''] = ''B  a B''"
    by (elim conjE)
  from th have d: "\<forall>t \<in> set [''B'', [], ''a'', ''B'']. CHR '' '' \<notin> set t"
    by (elim conjE)
  from d have d': "CHR '' '' \<notin> set ''B''"
    by simp
  from b have b': "set [''a'', ''b'', ''t''] =
      ascii_lower ` ({t \<in> set [''B'', [], ''a'', ''B'']. t \<noteq> []} \<union> {''T''})"
    by simp
  from normalize_tags_spec [of ascii_lower "''Work project-x''" True False "''toread''"]
  have "ascii_lower ''Work'' = ''work'' \<and> ascii_lower ''project-x'' = ''project-x'' \<longrightarrow>
      normalize_tags ascii_lower ''Work project-x'' True False ''toread'' =
        [''project-x'', ''work'']"
    by (elim conjE)
  from this l
  have e: "normalize_tags ascii_lower ''Work project-x'' True False ''toread'' =
       [''project-x'', ''work'']"
    by (rule mp)
  from v a b' c d' e show ?thesis by (intro conjI)
qed

subsection \<open>Exact comparison of tags\<close>

lemma guess_from_some_rule:
  "guess_collection_from_tags tags rules d \<noteq> d \<Longrightarrow>
   \<exists>r \<in> set rules. rule_matches tags r \<and>
     guess_collection_from_tags tags rules d = rule_collection_id r"
  by (induction rules) (auto split: if_splits)

lemma normalize_tags_Work: "normalize_tags lower ''Work'' False False tt = [''Work'']"
  by (simp add: normalize_tags_def)

lemma Work_no_match:
  "guess_collection_from_tags [''Work'']
     [\<lparr>rule_collection_id = 555, rule_tags = [''work''], rule_name = nm\<rparr>] d = d"
  by (simp add: rule_matches_def)

text \<open>
  Claim C10. A rule matches only through a tag string that occurs verbatim in the tag
  list: when no rule tag is an element of the tag list the default id is returned, and a
  result other than the default is the id of a rule one of whose tags is an element of the
  list. Without lowercasing the record tag \<open>Work\<close> stays \<open>Work\<close>, does not match the rule tag
  \<open>work\<close>, and the payload is given the default collection.
\<close>

theorem rule_matching_is_exact:
  "(set tags \<inter> (\<Union>r \<in> set rules. set (rule_tags r)) = {} \<longrightarrow>
      guess_collection_from_tags tags rules d = d)
   \<and> (guess_collection_from_tags tags rules d \<noteq> d \<longrightarrow>
        (\<exists>r \<in> set rules. \<exists>t \<in> set (rule_tags r). t \<in> set tags \<and>
           guess_collection_from_tags tags rules d = rule_collection_id r))
   \<and> normalize_tags lower ''Work'' False False tt = [''Work'']
   \<and> guess_collection_from_tags (normalize_tags lower ''Work'' False False tt)
        [\<lparr>rule_collection_id = 555, rule_tags = [''work''], rule_name = nm\<rparr>] d = d
   \<and> (\<not> arg_lowercase_tags a \<and> entry ''tags'' = Some ''Work'' \<and> entry ''toread'' \<noteq> Some ''yes''
        \<and> entry ''href'' = Some h \<longrightarrow>
        (\<exists>pl. pinboard_to_raindrop_payload lower entry a
                 [\<lparr>rule_collection_id = 555, rule_tags = [''work''], rule_name = nm\<rparr>] = Inr pl
              \<and> p_tags pl = [''Work''] \<and> p_collection pl = arg_collection_id a))"
proof (intro conjI impI)
  assume "set tags \<inter> (\<Union>r \<in> set rules. set (rule_tags r)) = {}"
  then have "\<forall>r \<in> set rules. \<not> rule_matches tags r"
    by (auto simp: rule_matches_iff)
  then show "guess_collection_from_tags tags rules d = d"
    by (rule guess_no_match)
next
  assume "guess_collection_from_tags tags rules d \<noteq> d"
  from guess_from_some_rule [OF this]
  show "\<exists>r \<in> set rules. \<exists>t \<in> set (rule_tags r). t \<in> set tags \<and>
           guess_collection_from_tags tags rules d = rule_collection_id r"
    by (auto simp: rule_matches_def list_ex_iff)
next
  show "normalize_tags lower ''Work'' False False tt = [''Work'']"
    by (rule normalize_tags_Work)
next
  show "guess_collection_from_tags (normalize_tags lower ''Work'' False False tt)
        [\<lparr>rule_collection_id = 555, rule_tags = [''work''], rule_name = nm\<rparr>] d = d"
    unfolding normalize_tags_Work by (rule Work_no_match)
next
  assume h: "\<not> arg_lowercase_tags a \<and> entry ''tags'' = Some ''Work'' \<and>
    entry ''toread'' \<noteq> Some ''yes'' \<and> entry ''href'' = Some h"
  have s: "select_collection_id entry [''Work''] (arg_collection_id a)
      (arg_readlater_collection_id a)
      [\<lparr>rule_collection_id = 555, rule_tags = [''work''], rule_name = nm\<rparr>] = arg_collection_id a"
    using h by (simp add: select_collection_id_def rule_matches_def split: option.split)
  show "\<exists>pl. pinboard_to_raindrop_payload lower entry a
                 [\<lparr>rule_collection_id = 555, rule_tags = [''work''], rule_name = nm\<rparr>] = Inr pl
              \<and> p_tags pl = [''Work''] \<and> p_collection pl = arg_collection_id a"
    using h s by (simp add: pinboard_to_raindrop_payload_def Let_def normalize_tags_Work)
qed

text \<open>
  The entry of the first smoke test with lowercasing switched off falls to the default
  collection 7; with lowercasing on, the same tag matches the rule.
\<close>

theorem rule_matching_is_exact_witness:
  "(\<exists>pl. pinboard_to_raindrop_payload ascii_lower
            [''href'' \<mapsto> ''https://example.com'', ''tags'' \<mapsto> ''Work'', ''toread'' \<mapsto> ''no'']
            \<lparr>arg_lowercase_tags = False, arg_toread_tag = ''toread'', arg_collection_id = 7,
              arg_readlater_collection_id = Some 123, arg_skip_existing = True,
              arg_merge_tags = False, arg_limit = None, arg_dry_run = False\<rparr>
            [\<lparr>rule_collection_id = 555, rule_tags = [''work''], rule_name = None\<rparr>] = Inr pl
         \<and> p_tags pl = [''Work''] \<and> p_collection pl = 7)
   \<and> guess_collection_from_tags [''Work'']
        [\<lparr>rule_collection_id = 555, rule_tags = [''work''], rule_name = None\<rparr>] 7 = 7
   \<and> guess_collection_from_tags (normalize_tags ascii_lower ''Work'' True False ''toread'')
        [\<lparr>rule_collection_id = 555, rule_tags = [''work''], rule_name = None\<rparr>] 7 = 555"
proof -
  let ?e = "[''href'' \<mapsto> ''https://example.com'', ''tags'' \<mapsto> ''Work'', ''toread'' \<mapsto> ''no'']"
  let ?a = "\<lparr>arg_lowercase_tags = False, arg_toread_tag = ''toread'', arg_collection_id = 7,
              arg_readlater_collection_id = Some 123, arg_skip_existing = True,
              arg_merge_tags = False, arg_limit = None, arg_dry_run = False\<rparr>"
  let ?r = "\<lparr>rule_collection_id = 555, rule_tags = [''work''], rule_name = None\<rparr>"
  note th = rule_matching_is_exact
    [of "[''Work'']" "[?r]" 7 ascii_lower "''toread''" None ?a ?e "''https://example.com''"]
  have hyp: "\<not> arg_lowercase_tags ?a \<and> ?e ''tags'' = Some ''Work'' \<and> ?e ''toread'' \<noteq> Some ''yes''
        \<and> ?e ''href'' = Some ''https://example.com''"
    by simp
  have dis: "set [''Work''] \<inter> (\<Union>r \<in> set [?r]. set (rule_tags r)) = {}"
    by simp
  from th hyp have 1: "\<exists>pl. pinboard_to_raindrop_payload ascii_lower ?e ?a [?r] = Inr pl
         \<and> p_tags pl = [''Work''] \<and> p_collection pl = 7"
    by simp
  from th dis have 2: "guess_collection_from_tags [''Work''] [?r] 7 = 7"
    by blast
  have 3: "guess_collection_from_tags (normalize_tags ascii_lower ''Work'' True False ''toread'') [?r] 7 = 555"
    by code_simp
  from 1 2 3 show ?thesis by (intro conjI)
qed

subsection \<open>The reclassifier\<close>

lemma guess_collection_None_iff:
  "guess_collection tags rules = None \<longleftrightarrow> (\<forall>r \<in> set rules. \<not> rule_matches tags r)"
  by (induction rules) auto

lemma guess_collection_find:
  "guess_collection tags rules = map_option rule_collection_id (find (rule_matches tags) rules)"
  by (induction rules) auto

lemma guess_collection_no_tags: "guess_collection [] rules = None"
  by (induction rules) (auto simp: rule_matches_def list_ex_iff)

lemma strip_www_prefix: "strip_www (''www.'' @ h) = h"
  by (simp add: strip_www_def)

lemma simple_netloc_example: "simple_netloc ''https://www.host.com/x'' = Inr ''www.host.com''"
  by (simp add: simple_netloc_def after_scheme_def)

text \<open>
  Claim C8. \<open>guess_collection\<close> has no default: it returns \<open>None\<close> exactly when no rule
  matches, and the id of the first matching rule otherwise. For an unmatched record
  \<open>suggest_new_collection\<close> returns the first tag when there is one; without tags it returns
  the host of the link with one leading \<open>www.\<close> removed, and \<open>None\<close> when that is empty. With
  no tags and the link \<open>https://www.host.com/x\<close>, whose host is \<open>www.host.com\<close>, no rule
  matches and the suggestion is \<open>host.com\<close>.
\<close>

theorem reclassifier_suggestion:
  "(guess_collection tags rules = None \<longleftrightarrow> \<not> (\<exists>r \<in> set rules. rule_matches tags r))
   \<and> guess_collection tags rules =
       map_option rule_collection_id (find (rule_matches tags) rules)
   \<and> suggest_new_collection netloc (t # ts) link = Inr (Some t)
   \<and> (netloc link = Inr host \<longrightarrow>
        suggest_new_collection netloc [] link =
          Inr (if strip_www host = [] then None else Some (strip_www host)))
   \<and> strip_www (''www.'' @ h) = h
   \<and> (take 4 host \<noteq> ''www.'' \<longrightarrow> strip_www host = host)
   \<and> (netloc ''https://www.host.com/x'' = Inr ''www.host.com'' \<longrightarrow>
        guess_collection [] rules = None
        \<and> suggest_new_collection netloc [] ''https://www.host.com/x'' = Inr (Some ''host.com''))"
proof (intro conjI impI)
  show "guess_collection tags rules = None \<longleftrightarrow> \<not> (\<exists>r \<in> set rules. rule_matches tags r)"
    by (simp add: guess_collection_None_iff)
  show "guess_collection tags rules =
       map_option rule_collection_id (find (rule_matches tags) rules)"
    by (rule guess_collection_find)
  show "suggest_new_collection netloc (t # ts) link = Inr (Some t)"
    by (simp add: suggest_new_collection_def)
  show "suggest_new_collection netloc [] link =
          Inr (if strip_www host = [] then None else Some (strip_www host))"
    if "netloc link = Inr host"
    using that by (simp add: suggest_new_collection_def Let_def)
  show "strip_www (''www.'' @ h) = h"
    by (rule strip_www_prefix)
  show "strip_www host = host" if "take 4 host \<noteq> ''www.''"
    using that by (simp add: strip_www_def)
  show "guess_collection [] rules = None"
    by (rule guess_collection_no_tags)
  show "suggest_new_collection netloc [] ''https://www.host.com/x'' = Inr (Some ''host.com'')"
    if "netloc ''https://www.host.com/x'' = Inr ''www.host.com''"
    using that by (simp add: suggest_new_collection_def Let_def strip_www_def)
qed

text \<open>
  The example of the specification, with a rule that does not match; a record with tags;
  a link without host.
\<close>

theorem reclassifier_suggestion_witness:
  "guess_collection [] [\<lparr>rule_collection_id = 555, rule_tags = [''work''], rule_name = None\<rparr>] = None
   \<and> suggest_new_collection simple_netloc [] ''https://www.host.com/x'' = Inr (Some ''host.com'')
   \<and> suggest_new_collection simple_netloc [''news'', ''work''] ''https://www.host.com/x'' =
        Inr (Some ''news'')
   \<and> suggest_new_collection simple_netloc [] ''notes.txt'' = Inr None
   \<and> strip_www ''host.com'' = ''host.com''"
proof -
  let ?r = "\<lparr>rule_collection_id = 555, rule_tags = [''work''], rule_name = None\<rparr>"
  note ex = reclassifier_suggestion
    [of "[]" "[?r]" simple_netloc "''news''" "[''work'']" "''https://www.host.com/x''"
        "''host.com''" "''host.com''"]
  have n: "simple_netloc ''https://www.host.com/x'' = Inr ''www.host.com''"
    by (rule simple_netloc_example)
  from ex n have 1: "guess_collection [] [?r] = None"
    and 2: "suggest_new_collection simple_netloc [] ''https://www.host.com/x'' =
              Inr (Some ''host.com'')"
    by blast+
  from ex have 3: "suggest_new_collection simple_netloc [''news'', ''work'']
       ''https://www.host.com/x'' = Inr (Some ''news'')"
    by blast
  have t: "take 4 ''host.com'' \<noteq> ''www.''"
    by simp
  from ex t have 5: "strip_www ''host.com'' = ''host.com''"
    by blast
  have m: "simple_netloc ''notes.txt'' = Inr []"
    by (simp add: simple_netloc_def after_scheme_def)
  have s: "strip_www [] = []"
    by (simp add: strip_www_def)
  from reclassifier_suggestion [of "[]" "[?r]" simple_netloc "''news''" "[''work'']"
      "''notes.txt''" "[]" "[]"] m
  have 4: "suggest_new_collection simple_netloc [] ''notes.txt'' = Inr None"
    unfolding s by simp
  from 1 2 3 4 5 show ?thesis by (intro conjI)
qed

subsection \<open>A failed lookup\<close>

lemma reconcile_action_not_found: "reconcile_action a None None = CREATE"
  by (simp add: reconcile_action_def truthy_item_def truthy_id_def)

lemma find_existing_HTTPError:
  "client_get client link w = (Inl e, w') \<Longrightarrow> is_HTTPError e \<Longrightarrow>
   find_existing_raindrop client link w = (Inr (None, None), w')"
  by (simp add: find_existing_raindrop_def catch_HTTPError_def)

lemma find_existing_bad_status:
  "client_get client link w = (Inr resp, w') \<Longrightarrow> \<not> status_ok resp \<Longrightarrow>
   find_existing_raindrop client link w = (Inr (None, None), w')"
  by (simp add: find_existing_raindrop_def catch_HTTPError_def is_HTTPError_def)

lemma reconcile_not_found:
  assumes "arg_skip_existing a \<or> arg_merge_tags a"
    and "find_existing_raindrop client href (world st) = (Inr (None, None), w')"
  shows "reconcile a client href pl st =
     (case create_raindrop client pl w' of
        (Inl e, w2) \<Rightarrow> Inl e
      | (Inr ok, w2) \<Rightarrow>
          Inr (st\<lparr>counters :=
                     (count_write ok (\<lambda>s. s\<lparr>created := created s + 1\<rparr>) (counters st))
                       \<lparr>processed := processed (counters st) + 1\<rparr>,
                   world := w2\<rparr>))"
  using assms
  by (auto simp: reconcile_def lookup_existing_def reconcile_action_not_found split: prod.splits sum.splits)

text \<open>
  Claim C7. When the search raises an \<^verbatim>\<open>httpx.HTTPError\<close> (the request fails, or the
  response has an error status), \<open>find_existing_raindrop\<close> returns \<open>(None, None)\<close> and raises
  nothing. The loop then takes the branch of creation: the record is posted and counted as
  created or failed, as if no record had been found.
\<close>

theorem lookup_failure_is_not_found:
  "(client_get client link w = (Inl e, w') \<and> is_HTTPError e \<longrightarrow>
      find_existing_raindrop client link w = (Inr (None, None), w'))
   \<and> (client_get client link w = (Inr resp, w') \<and> \<not> status_ok resp \<longrightarrow>
      find_existing_raindrop client link w = (Inr (None, None), w'))
   \<and> reconcile_action a None None = CREATE
   \<and> ((arg_skip_existing a \<or> arg_merge_tags a) \<and>
       ((\<exists>e. client_get client link (world st) = (Inl e, w') \<and> is_HTTPError e) \<or>
        (\<exists>resp. client_get client link (world st) = (Inr resp, w') \<and> \<not> status_ok resp)) \<longrightarrow>
       reconcile a client link pl st =
         (case create_raindrop client pl w' of
            (Inl e, w2) \<Rightarrow> Inl e
          | (Inr ok, w2) \<Rightarrow>
              Inr (st\<lparr>counters :=
                         (count_write ok (\<lambda>s. s\<lparr>created := created s + 1\<rparr>) (counters st))
                           \<lparr>processed := processed (counters st) + 1\<rparr>,
                       world := w2\<rparr>)))"
proof (intro conjI impI)
  show "find_existing_raindrop client link w = (Inr (None, None), w')"
    if "client_get client link w = (Inl e, w') \<and> is_HTTPError e"
    using that by (simp add: find_existing_HTTPError)
  show "find_existing_raindrop client link w = (Inr (None, None), w')"
    if "client_get client link w = (Inr resp, w') \<and> \<not> status_ok resp"
    using that by (simp add: find_existing_bad_status)
  show "reconcile_action a None None = CREATE"
    by (rule reconcile_action_not_found)
  assume h: "(arg_skip_existing a \<or> arg_merge_tags a) \<and>
       ((\<exists>e. client_get client link (world st) = (Inl e, w') \<and> is_HTTPError e) \<or>
        (\<exists>resp. client_get client link (world st) = (Inr resp, w') \<and> \<not> status_ok resp))"
  then have "find_existing_raindrop client link (world st) = (Inr (None, None), w')"
    by (auto intro: find_existing_HTTPError find_existing_bad_status)
  with h show "reconcile a client link pl st =
         (case create_raindrop client pl w' of
            (Inl e, w2) \<Rightarrow> Inl e
          | (Inr ok, w2) \<Rightarrow>
              Inr (st\<lparr>counters :=
                         (count_write ok (\<lambda>s. s\<lparr>created := created s + 1\<rparr>) (counters st))
                           \<lparr>processed := processed (counters st) + 1\<rparr>,
                       world := w2\<rparr>))"
    by (intro reconcile_not_found) simp_all
qed


text \<open>
  A client whose search cannot reach the service, with skipping switched on: the lookup
  reports nothing found, the record is posted, and the run goes on with one record created.
\<close>

theorem lookup_failure_is_not_found_witness:
  "find_existing_raindrop (recording_client lookup_down True) ''https://example.com'' [] =
     (Inr (None, None), [Get ''https://example.com''])
   \<and> map_sum id (\<lambda>st. (created (counters st), failed (counters st), processed (counters st),
                         world st))
       (reconcile
          \<lparr>arg_lowercase_tags = False, arg_toread_tag = ''toread'', arg_collection_id = 0,
            arg_readlater_collection_id = None, arg_skip_existing = True,
            arg_merge_tags = False, arg_limit = None, arg_dry_run = False\<rparr>
          (recording_client lookup_down True) ''https://example.com''
          \<lparr>p_link = ''https://example.com'', p_title = ''Example'', p_tags = [],
            p_important = False, p_collection = 0, p_pleaseParse_mode = ''tags'',
            p_note = None, p_excerpt = None, p_created = None, p_lastUpdate = None\<rparr>
          (state0 [])) =
     Inr (1, 0, 1,
          [Get ''https://example.com'',
           Post \<lparr>p_link = ''https://example.com'', p_title = ''Example'', p_tags = [],
                  p_important = False, p_collection = 0, p_pleaseParse_mode = ''tags'',
                  p_note = None, p_excerpt = None, p_created = None, p_lastUpdate = None\<rparr>])"
proof -
  let ?c = "recording_client lookup_down True"
  let ?a = "\<lparr>arg_lowercase_tags = False, arg_toread_tag = ''toread'', arg_collection_id = 0,
            arg_readlater_collection_id = None, arg_skip_existing = True,
            arg_merge_tags = False, arg_limit = None, arg_dry_run = False\<rparr>"
  let ?pl = "\<lparr>p_link = ''https://example.com'', p_title = ''Example'', p_tags = [],
            p_important = False, p_collection = 0, p_pleaseParse_mode = ''tags'',
            p_note = None, p_excerpt = None, p_created = None, p_lastUpdate = None\<rparr>"
  let ?st = "state0 ([] :: call list)"
  have g: "client_get ?c ''https://example.com'' [] = (Inl RequestError, [Get ''https://example.com''])"
    by (simp add: recording_client_def lookup_down_def)
  have e: "is_HTTPError RequestError"
    by (simp add: is_HTTPError_def)
  have w: "world ?st = []"
    by (simp add: state0_def)
  note th = lookup_failure_is_not_found
    [of ?c "''https://example.com''" "[]" RequestError "[Get ''https://example.com'']" _ ?a ?st ?pl]
  from th g e have 1: "find_existing_raindrop ?c ''https://example.com'' [] =
     (Inr (None, None), [Get ''https://example.com''])"
    by blast
  have "(arg_skip_existing ?a \<or> arg_merge_tags ?a) \<and>
       ((\<exists>e. client_get ?c ''https://example.com'' (world ?st) = (Inl e, [Get ''https://example.com''])
             \<and> is_HTTPError e) \<or>
        (\<exists>resp. client_get ?c ''https://example.com'' (world ?st) =
             (Inr resp, [Get ''https://example.com'']) \<and> \<not> status_ok resp))"
    using g e unfolding w by auto
  with th have r: "reconcile ?a ?c ''https://example.com'' ?pl ?st =
         (case create_raindrop ?c ?pl [Get ''https://example.com''] of
            (Inl e, w2) \<Rightarrow> Inl e
          | (Inr ok, w2) \<Rightarrow>
              Inr (?st\<lparr>counters :=
                         (count_write ok (\<lambda>s. s\<lparr>created := created s + 1\<rparr>) (counters ?st))
                           \<lparr>processed := processed (counters ?st) + 1\<rparr>,
                       world := w2\<rparr>))"
    by blast
  have 2: "map_sum id (\<lambda>st. (created (counters st), failed (counters st),
                 processed (counters st), world st))
       (reconcile ?a ?c ''https://example.com'' ?pl ?st) =
     Inr (1, 0, 1, [Get ''https://example.com'', Post ?pl])"
    unfolding r
    by (simp add: create_raindrop_def recording_client_def state0_def stats0_def count_write_def)
  from 1 2 show ?thesis by (intro conjI)
qed

subsection \<open>The update body of a merge\<close>

lemma sort_remdups_absorb:
  fixes xs ys :: "'a::linorder list"
  assumes "set ys \<subseteq> set xs"
  shows "sort (remdups (xs @ ys)) = sort (remdups xs)"
proof (rule sorted_distinct_set_unique)
  show "set (sort (remdups (xs @ ys))) = set (sort (remdups xs))"
    using assms by auto
qed simp_all

lemma build_update_body_merge_nonempty:
  "build_update_body pl existing True \<noteq> empty_body"
  by (simp add: build_update_body_def empty_body_def)

lemma build_update_body_contained:
  assumes "set (p_tags pl) \<subseteq> set (existing_tags existing)"
    and "no_note pl"
  shows "build_update_body pl existing True =
     empty_body\<lparr>u_tags := Some (sort (remdups (existing_tags existing)))\<rparr>"
  using assms
  by (auto simp: build_update_body_def empty_body_def no_note_def sort_remdups_absorb)

lemma build_update_body_no_merge:
  "build_update_body pl existing False = empty_body \<longleftrightarrow> no_note pl"
  by (auto simp: build_update_body_def empty_body_def no_note_def split: option.splits)

lemma update_raindrop_writes:
  "build_update_body pl existing merge = body \<Longrightarrow> body \<noteq> empty_body \<Longrightarrow>
   update_raindrop client i pl existing merge w =
     (case client_put client i body w of
        (Inl e, w') \<Rightarrow> (Inl e, w')
      | (Inr resp, w') \<Rightarrow> (Inr (status_ok resp), w'))"
  by (simp add: update_raindrop_def Let_def)

text \<open>
  Claim C1, as the specification states it, fails: in a merge the update body always has
  the key \<open>tags\<close>, so it is never empty, the update is sent, and the call reports what the
  service answers. Here the existing record and the payload carry the same single tag and
  the service rejects the update.
\<close>

theorem merge_delta_empty_counterexample:
  "set (p_tags \<lparr>p_link = ''https://example.com'', p_title = ''Example'', p_tags = [''a''],
                p_important = False, p_collection = 0, p_pleaseParse_mode = ''tags'',
                p_note = None, p_excerpt = None, p_created = None, p_lastUpdate = None\<rparr>)
     \<subseteq> set (existing_tags \<lparr>r_id = Some 7, r_tags = Some [''a'']\<rparr>)
   \<and> build_update_body
        \<lparr>p_link = ''https://example.com'', p_title = ''Example'', p_tags = [''a''],
          p_important = False, p_collection = 0, p_pleaseParse_mode = ''tags'',
          p_note = None, p_excerpt = None, p_created = None, p_lastUpdate = None\<rparr>
        \<lparr>r_id = Some 7, r_tags = Some [''a'']\<rparr> True
      = \<lparr>u_tags = Some [''a''], u_note = None, u_excerpt = None, u_important = None\<rparr>
   \<and> \<lparr>u_tags = Some [''a''], u_note = None, u_excerpt = None, u_important = None\<rparr> \<noteq> empty_body
   \<and> update_raindrop (recording_client lookup_down False) 7
        \<lparr>p_link = ''https://example.com'', p_title = ''Example'', p_tags = [''a''],
          p_important = False, p_collection = 0, p_pleaseParse_mode = ''tags'',
          p_note = None, p_excerpt = None, p_created = None, p_lastUpdate = None\<rparr>
        \<lparr>r_id = Some 7, r_tags = Some [''a'']\<rparr> True []
      = (Inr False,
         [Put 7 \<lparr>u_tags = Some [''a''], u_note = None, u_excerpt = None, u_important = None\<rparr>])"
  by (simp add: build_update_body_def existing_tags_def empty_body_def update_raindrop_def
      recording_client_def)

text \<open>
  Claim C1, amended. When \<open>update_raindrop\<close> merges into an existing record whose tags
  contain all the tags of the payload, and the payload has no non-empty note or excerpt and
  is not important, the update body has the single key \<open>tags\<close>, and its value is the tags
  of the existing record, sorted and without duplicates: nothing is added and nothing is
  removed. The body of a merge is never empty, so the update is sent and the result is the
  outcome of that write. The body is empty, and the call succeeds without a write, exactly
  when \<open>merge_tags\<close> is false and the payload has no non-empty note or excerpt and is not
  important.
\<close>

theorem merge_delta_keeps_tags:
  "(set (p_tags pl) \<subseteq> set (existing_tags existing) \<and> no_note pl \<longrightarrow>
      build_update_body pl existing True =
        empty_body\<lparr>u_tags := Some (sort (remdups (existing_tags existing)))\<rparr>
      \<and> update_raindrop client i pl existing True w =
          (case client_put client i
                  (empty_body\<lparr>u_tags := Some (sort (remdups (existing_tags existing)))\<rparr>) w of
             (Inl e, w') \<Rightarrow> (Inl e, w')
           | (Inr resp, w') \<Rightarrow> (Inr (status_ok resp), w')))
   \<and> build_update_body pl existing True \<noteq> empty_body
   \<and> (build_update_body pl existing False = empty_body \<longleftrightarrow> no_note pl)
   \<and> (no_note pl \<longrightarrow> update_raindrop client i pl existing False w = (Inr True, w))"
proof (intro conjI impI)
  assume h: "set (p_tags pl) \<subseteq> set (existing_tags existing) \<and> no_note pl"
  then show b: "build_update_body pl existing True =
        empty_body\<lparr>u_tags := Some (sort (remdups (existing_tags existing)))\<rparr>"
    by (simp add: build_update_body_contained)
  have "empty_body\<lparr>u_tags := Some (sort (remdups (existing_tags existing)))\<rparr> \<noteq> empty_body"
    using build_update_body_merge_nonempty [of pl existing] unfolding b .
  with b show "update_raindrop client i pl existing True w =
          (case client_put client i
                  (empty_body\<lparr>u_tags := Some (sort (remdups (existing_tags existing)))\<rparr>) w of
             (Inl e, w') \<Rightarrow> (Inl e, w')
           | (Inr resp, w') \<Rightarrow> (Inr (status_ok resp), w'))"
    by (rule update_raindrop_writes)
next
  show "build_update_body pl existing True \<noteq> empty_body"
    by (rule build_update_body_merge_nonempty)
next
  show "build_update_body pl existing False = empty_body \<longleftrightarrow> no_note pl"
    by (rule build_update_body_no_merge)
next
  assume "no_note pl"
  then show "update_raindrop client i pl existing False w = (Inr True, w)"
    by (simp add: update_raindrop_def Let_def build_update_body_no_merge)
qed

text \<open>
  An existing record tagged \<open>b\<close>, \<open>a\<close>, \<open>b\<close> and a payload tagged \<open>a\<close>: the merge sends the
  tags \<open>a\<close>, \<open>b\<close> and succeeds when the service accepts; without merging nothing is sent.
\<close>

theorem merge_delta_keeps_tags_witness:
  "update_raindrop (recording_client lookup_down True) 7
        \<lparr>p_link = ''https://example.com'', p_title = ''Example'', p_tags = [''a''],
          p_important = False, p_collection = 0, p_pleaseParse_mode = ''tags'',
          p_note = None, p_excerpt = Some [], p_created = None, p_lastUpdate = None\<rparr>
        \<lparr>r_id = Some 7, r_tags = Some [''b'', ''a'', ''b'']\<rparr> True []
      = (Inr True,
         [Put 7 \<lparr>u_tags = Some [''a'', ''b''], u_note = None, u_excerpt = None,
                  u_important = None\<rparr>])
   \<and> update_raindrop (recording_client lookup_down True) 7
        \<lparr>p_link = ''https://example.com'', p_title = ''Example'', p_tags = [''a''],
          p_important = False, p_collection = 0, p_pleaseParse_mode = ''tags'',
          p_note = None, p_excerpt = Some [], p_created = None, p_lastUpdate = None\<rparr>
        \<lparr>r_id = Some 7, r_tags = Some [''b'', ''a'', ''b'']\<rparr> False []
      = (Inr True, [])"
proof -
  let ?pl = "\<lparr>p_link = ''https://example.com'', p_title = ''Example'', p_tags = [''a''],
          p_important = False, p_collection = 0, p_pleaseParse_mode = ''tags'',
          p_note = None, p_excerpt = Some [], p_created = None, p_lastUpdate = None\<rparr>"
  let ?ex = "\<lparr>r_id = Some 7, r_tags = Some [''b'', ''a'', ''b'']\<rparr>"
  let ?c = "recording_client lookup_down True"
  have n: "no_note ?pl"
    by (simp add: no_note_def)
  have t: "existing_tags ?ex = [''b'', ''a'', ''b'']"
    by (simp add: existing_tags_def)
  have s: "set (p_tags ?pl) \<subseteq> set (existing_tags ?ex)"
    unfolding t by simp
  have v: "sort (remdups [''b'', ''a'', ''b'']) = [''a'', ''b'']"
    by simp
  note th = merge_delta_keeps_tags [of ?pl ?ex ?c 7 "[]"]
  from th n s have "update_raindrop ?c 7 ?pl ?ex True [] =
          (case client_put ?c 7
                  (empty_body\<lparr>u_tags := Some (sort (remdups (existing_tags ?ex)))\<rparr>) [] of
             (Inl e, w') \<Rightarrow> (Inl e, w')
           | (Inr resp, w') \<Rightarrow> (Inr (status_ok resp), w'))"
    by blast
  then have 1: "update_raindrop ?c 7 ?pl ?ex True [] =
      (Inr True, [Put 7 \<lparr>u_tags = Some [''a'', ''b''], u_note = None, u_excerpt = None,
                  u_important = None\<rparr>])"
    unfolding t v by (simp add: recording_client_def empty_body_def)
  from th n have 2: "update_raindrop ?c 7 ?pl ?ex False [] = (Inr True, [])"
    by blast
  from 1 2 show ?thesis by (intro conjI)
qed

subsection \<open>The decision of the reconciliation\<close>

lemma find_existing_result:
  "find_existing_raindrop client link w = (Inr (it, i), w') \<Longrightarrow>
   (it = None \<and> i = None) \<or> (\<exists>item n. it = Some item \<and> i = Some n \<and> r_id item = Some n)"
  by (auto simp: find_existing_raindrop_def catch_HTTPError_def
      split: prod.splits sum.splits if_splits list.splits option.splits)

lemma verdict_not_found: "verdict_of (reconcile_action a None i) = Create"
  by (simp add: reconcile_action_def truthy_item_def)

lemma verdict_found:
  "r_id item = Some n \<Longrightarrow>
   verdict_of (reconcile_action a (Some item) (Some n)) =
     (if arg_merge_tags a \<and> n = 0 then Create
      else decision_table True (arg_skip_existing a) (arg_merge_tags a))"
  by (cases "arg_skip_existing a"; cases "arg_merge_tags a")
     (simp_all add: reconcile_action_def truthy_item_def truthy_id_def)

lemma reconcile_action_MERGE:
  "reconcile_action a it i = MERGE n item \<Longrightarrow>
   it = Some item \<and> i = Some n \<and> n \<noteq> 0 \<and> arg_merge_tags a"
  by (auto simp: reconcile_action_def truthy_id_def split: if_splits option.splits)

lemma lookup_result:
  "lookup_existing a client link w = (Inr (it, i), w') \<Longrightarrow>
   (it = None \<and> i = None) \<or> (\<exists>item n. it = Some item \<and> i = Some n \<and> r_id item = Some n)"
  by (auto simp: lookup_existing_def dest: find_existing_result split: if_splits)

lemma reconcile_unfold:
  "lookup_existing a client href (world st) = (Inr (it, i), w1) \<Longrightarrow>
   reconcile a client href pl st =
     (case reconcile_action a it i of
        SKIP \<Rightarrow>
          Inr (st\<lparr>counters :=
                     (counters st)\<lparr>skipped_existing := skipped_existing (counters st) + 1,
                                   processed := processed (counters st) + 1\<rparr>,
                   world := w1\<rparr>)
      | MERGE n item \<Rightarrow>
          (case update_raindrop client n pl item True w1 of
             (Inl e, w2) \<Rightarrow> Inl e
           | (Inr ok, w2) \<Rightarrow>
               Inr (st\<lparr>counters :=
                          (count_write ok (\<lambda>s. s\<lparr>updated := updated s + 1\<rparr>) (counters st))
                            \<lparr>processed := processed (counters st) + 1\<rparr>,
                        world := w2\<rparr>))
      | CREATE \<Rightarrow>
          (case create_raindrop client pl w1 of
             (Inl e, w2) \<Rightarrow> Inl e
           | (Inr ok, w2) \<Rightarrow>
               Inr (st\<lparr>counters :=
                          (count_write ok (\<lambda>s. s\<lparr>created := created s + 1\<rparr>) (counters st))
                            \<lparr>processed := processed (counters st) + 1\<rparr>,
                        world := w2\<rparr>)))"
  by (simp add: reconcile_def lookup_existing_def split: action.splits prod.splits sum.splits)


text \<open>
  Claim C2. The decision table of the specification, and the help of the two options (an
  existing bookmark is skipped, or merged instead of skipped), are what the code aims at, and
  one input breaks them. The branch of the merge tests \<^verbatim>\<open>existing_id\<close> for its truth value
  where it means "is not \<^verbatim>\<open>None\<close>", and the id 0 is false in Python. So a record that the
  search returns with the id 0 is found, the table says MERGE for it under either value of
  \<open>skipExisting\<close>, and the code creates it a second time; the branch of the skip, which tests
  the record alone, treats the same record as existing.
\<close>

theorem merge_of_id_zero_creates:
  "find_existing_raindrop
     (recording_client (found_items [\<lparr>r_id = Some 0, r_tags = Some [''a'']\<rparr>]) True)
     ''https://example.com'' []
     = (Inr (Some \<lparr>r_id = Some 0, r_tags = Some [''a'']\<rparr>, Some 0), [Get ''https://example.com''])
   \<and> decision_table True True True = Merge
   \<and> decision_table True False True = Merge
   \<and> reconcile_action
        \<lparr>arg_lowercase_tags = False, arg_toread_tag = ''toread'', arg_collection_id = 0,
          arg_readlater_collection_id = None, arg_skip_existing = True,
          arg_merge_tags = True, arg_limit = None, arg_dry_run = False\<rparr>
        (Some \<lparr>r_id = Some 0, r_tags = Some [''a'']\<rparr>) (Some 0) = CREATE
   \<and> reconcile_action
        \<lparr>arg_lowercase_tags = False, arg_toread_tag = ''toread'', arg_collection_id = 0,
          arg_readlater_collection_id = None, arg_skip_existing = False,
          arg_merge_tags = True, arg_limit = None, arg_dry_run = False\<rparr>
        (Some \<lparr>r_id = Some 0, r_tags = Some [''a'']\<rparr>) (Some 0) = CREATE
   \<and> reconcile_action
        \<lparr>arg_lowercase_tags = False, arg_toread_tag = ''toread'', arg_collection_id = 0,
          arg_readlater_collection_id = None, arg_skip_existing = True,
          arg_merge_tags = False, arg_limit = None, arg_dry_run = False\<rparr>
        (Some \<lparr>r_id = Some 0, r_tags = Some [''a'']\<rparr>) (Some 0) = SKIP
   \<and> map_sum id (\<lambda>st. (created (counters st), updated (counters st), world st))
       (reconcile
          \<lparr>arg_lowercase_tags = False, arg_toread_tag = ''toread'', arg_collection_id = 0,
            arg_readlater_collection_id = None, arg_skip_existing = True,
            arg_merge_tags = True, arg_limit = None, arg_dry_run = False\<rparr>
          (recording_client (found_items [\<lparr>r_id = Some 0, r_tags = Some [''a'']\<rparr>]) True)
          ''https://example.com''
          \<lparr>p_link = ''https://example.com'', p_title = ''Example'', p_tags = [''b''],
            p_important = False, p_collection = 0, p_pleaseParse_mode = ''tags'',
            p_note = None, p_excerpt = None, p_created = None, p_lastUpdate = None\<rparr>
          (state0 []))
     = Inr (1, 0,
            [Get ''https://example.com'',
             Post \<lparr>p_link = ''https://example.com'', p_title = ''Example'', p_tags = [''b''],
                    p_important = False, p_collection = 0, p_pleaseParse_mode = ''tags'',
                    p_note = None, p_excerpt = None, p_created = None, p_lastUpdate = None\<rparr>])"
proof -
  let ?item = "\<lparr>r_id = Some 0, r_tags = Some [''a'']\<rparr>"
  let ?c = "recording_client (found_items [?item]) True"
  let ?u = "''https://example.com''"
  let ?a = "\<lparr>arg_lowercase_tags = False, arg_toread_tag = ''toread'', arg_collection_id = 0,
            arg_readlater_collection_id = None, arg_skip_existing = True,
            arg_merge_tags = True, arg_limit = None, arg_dry_run = False\<rparr>"
  let ?pl = "\<lparr>p_link = ''https://example.com'', p_title = ''Example'', p_tags = [''b''],
            p_important = False, p_collection = 0, p_pleaseParse_mode = ''tags'',
            p_note = None, p_excerpt = None, p_created = None, p_lastUpdate = None\<rparr>"
  let ?st = "state0 ([] :: call list)"
  have f: "find_existing_raindrop ?c ?u [] = (Inr (Some ?item, Some 0), [Get ?u])"
    by (simp add: find_existing_raindrop_def recording_client_def found_items_def)
  have t: "decision_table True True True = Merge" "decision_table True False True = Merge"
    by simp_all
  have act: "reconcile_action ?a (Some ?item) (Some 0) = CREATE"
    by (simp add: reconcile_action_def truthy_item_def truthy_id_def)
  have act2: "reconcile_action
        \<lparr>arg_lowercase_tags = False, arg_toread_tag = ''toread'', arg_collection_id = 0,
          arg_readlater_collection_id = None, arg_skip_existing = False,
          arg_merge_tags = True, arg_limit = None, arg_dry_run = False\<rparr>
        (Some ?item) (Some 0) = CREATE"
    by (simp add: reconcile_action_def truthy_item_def truthy_id_def)
  have act3: "reconcile_action
        \<lparr>arg_lowercase_tags = False, arg_toread_tag = ''toread'', arg_collection_id = 0,
          arg_readlater_collection_id = None, arg_skip_existing = True,
          arg_merge_tags = False, arg_limit = None, arg_dry_run = False\<rparr>
        (Some ?item) (Some 0) = SKIP"
    by (simp add: reconcile_action_def truthy_item_def truthy_id_def)
  have lk: "lookup_existing ?a ?c ?u (world ?st) = (Inr (Some ?item, Some 0), [Get ?u])"
    by (simp add: lookup_existing_def state0_def f)
  have cr: "create_raindrop ?c ?pl [Get ?u] = (Inr True, [Get ?u, Post ?pl])"
    by (simp add: create_raindrop_def recording_client_def)
  have r: "map_sum id (\<lambda>st. (created (counters st), updated (counters st), world st))
       (reconcile ?a ?c ?u ?pl ?st) = Inr (1, 0, [Get ?u, Post ?pl])"
    unfolding reconcile_unfold [OF lk] act
    by (simp add: cr count_write_def state0_def stats0_def)
  from f t act act2 act3 r show ?thesis by (intro conjI)
qed

text \<open>
  Everywhere else the code follows the table. For a record that reaches the reconciliation
  (a new link, not a dry run) and a lookup that does not return the id 0: not found gives
  CREATE; found with \<open>skipExisting\<close> and without \<open>mergeTags\<close> gives SKIP, which counts the
  record as skipped and as processed and writes nothing; found with \<open>mergeTags\<close> gives MERGE,
  an update of that id with that record. With neither option the lookup is not made and the
  record is created.
\<close>

lemma reconcile_decision_nonzero_id:
  "lookup_existing a client href (world st) = (Inr (it, i), w1) \<and> i \<noteq> Some 0 \<longrightarrow>
     verdict_of (reconcile_action a it i) =
       decision_table (it \<noteq> None) (arg_skip_existing a) (arg_merge_tags a)
     \<and> (\<not> arg_skip_existing a \<and> \<not> arg_merge_tags a \<longrightarrow> it = None \<and> w1 = world st)
     \<and> (reconcile_action a it i = SKIP \<longrightarrow>
          reconcile a client href pl st =
            Inr (st\<lparr>counters :=
                       (counters st)\<lparr>skipped_existing := skipped_existing (counters st) + 1,
                                     processed := processed (counters st) + 1\<rparr>,
                     world := w1\<rparr>))
     \<and> (reconcile_action a it i = MERGE n item \<longrightarrow>
          it = Some item \<and> i = Some n \<and>
          reconcile a client href pl st =
            (case update_raindrop client n pl item True w1 of
               (Inl e, w2) \<Rightarrow> Inl e
             | (Inr ok, w2) \<Rightarrow>
                 Inr (st\<lparr>counters :=
                            (count_write ok (\<lambda>s. s\<lparr>updated := updated s + 1\<rparr>) (counters st))
                              \<lparr>processed := processed (counters st) + 1\<rparr>,
                          world := w2\<rparr>)))
     \<and> (reconcile_action a it i = CREATE \<longrightarrow>
          reconcile a client href pl st =
            (case create_raindrop client pl w1 of
               (Inl e, w2) \<Rightarrow> Inl e
             | (Inr ok, w2) \<Rightarrow>
                 Inr (st\<lparr>counters :=
                            (count_write ok (\<lambda>s. s\<lparr>created := created s + 1\<rparr>) (counters st))
                              \<lparr>processed := processed (counters st) + 1\<rparr>,
                          world := w2\<rparr>)))"
proof (intro impI conjI)
  assume h: "lookup_existing a client href (world st) = (Inr (it, i), w1) \<and> i \<noteq> Some 0"
  then have l: "lookup_existing a client href (world st) = (Inr (it, i), w1)"
    and z: "i \<noteq> Some 0"
    by simp_all
  from lookup_result [OF l] z
  show "verdict_of (reconcile_action a it i) =
       decision_table (it \<noteq> None) (arg_skip_existing a) (arg_merge_tags a)"
    by (elim disjE exE conjE) (simp_all add: verdict_not_found verdict_found)
  show "it = None" "w1 = world st" if "\<not> arg_skip_existing a \<and> \<not> arg_merge_tags a"
    using l that by (simp_all add: lookup_existing_def)
  note u = reconcile_unfold [OF l, of pl]
  show "reconcile a client href pl st =
            Inr (st\<lparr>counters :=
                       (counters st)\<lparr>skipped_existing := skipped_existing (counters st) + 1,
                                     processed := processed (counters st) + 1\<rparr>,
                     world := w1\<rparr>)"
    if "reconcile_action a it i = SKIP"
    unfolding u that by simp
  show "reconcile a client href pl st =
            (case create_raindrop client pl w1 of
               (Inl e, w2) \<Rightarrow> Inl e
             | (Inr ok, w2) \<Rightarrow>
                 Inr (st\<lparr>counters :=
                            (count_write ok (\<lambda>s. s\<lparr>created := created s + 1\<rparr>) (counters st))
                              \<lparr>processed := processed (counters st) + 1\<rparr>,
                          world := w2\<rparr>))"
    if "reconcile_action a it i = CREATE"
    unfolding u that by simp
  assume m: "reconcile_action a it i = MERGE n item"
  from reconcile_action_MERGE [OF m] show "it = Some item" "i = Some n"
    by simp_all
  show "reconcile a client href pl st =
            (case update_raindrop client n pl item True w1 of
               (Inl e, w2) \<Rightarrow> Inl e
             | (Inr ok, w2) \<Rightarrow>
                 Inr (st\<lparr>counters :=
                            (count_write ok (\<lambda>s. s\<lparr>updated := updated s + 1\<rparr>) (counters st))
                              \<lparr>processed := processed (counters st) + 1\<rparr>,
                          world := w2\<rparr>))"
    unfolding u m by simp
qed


text \<open>
  A link that the service already holds under the id 5. With skipping alone the record is
  counted as skipped after the search, and nothing is written; with merging the record 5
  is updated with the union of the tags.
\<close>

lemma reconcile_decision_example:
  "map_sum id (\<lambda>st. (skipped_existing (counters st), updated (counters st),
                      created (counters st), processed (counters st), world st))
     (reconcile
        \<lparr>arg_lowercase_tags = False, arg_toread_tag = ''toread'', arg_collection_id = 0,
          arg_readlater_collection_id = None, arg_skip_existing = True,
          arg_merge_tags = False, arg_limit = None, arg_dry_run = False\<rparr>
        (recording_client (found_items [\<lparr>r_id = Some 5, r_tags = Some [''old'']\<rparr>]) True)
        ''https://example.com''
        \<lparr>p_link = ''https://example.com'', p_title = ''Example'', p_tags = [''new''],
          p_important = False, p_collection = 0, p_pleaseParse_mode = ''tags'',
          p_note = None, p_excerpt = None, p_created = None, p_lastUpdate = None\<rparr>
        (state0 []))
     = Inr (1, 0, 0, 1, [Get ''https://example.com''])
   \<and> map_sum id (\<lambda>st. (skipped_existing (counters st), updated (counters st),
                      created (counters st), processed (counters st), world st))
     (reconcile
        \<lparr>arg_lowercase_tags = False, arg_toread_tag = ''toread'', arg_collection_id = 0,
          arg_readlater_collection_id = None, arg_skip_existing = True,
          arg_merge_tags = True, arg_limit = None, arg_dry_run = False\<rparr>
        (recording_client (found_items [\<lparr>r_id = Some 5, r_tags = Some [''old'']\<rparr>]) True)
        ''https://example.com''
        \<lparr>p_link = ''https://example.com'', p_title = ''Example'', p_tags = [''new''],
          p_important = False, p_collection = 0, p_pleaseParse_mode = ''tags'',
          p_note = None, p_excerpt = None, p_created = None, p_lastUpdate = None\<rparr>
        (state0 []))
     = Inr (0, 1, 0, 1,
            [Get ''https://example.com'',
             Put 5 \<lparr>u_tags = Some [''new'', ''old''], u_note = None, u_excerpt = None,
                     u_important = None\<rparr>])"
proof -
  let ?item = "\<lparr>r_id = Some 5, r_tags = Some [''old'']\<rparr>"
  let ?c = "recording_client (found_items [?item]) True"
  let ?u = "''https://example.com''"
  let ?pl = "\<lparr>p_link = ''https://example.com'', p_title = ''Example'', p_tags = [''new''],
          p_important = False, p_collection = 0, p_pleaseParse_mode = ''tags'',
          p_note = None, p_excerpt = None, p_created = None, p_lastUpdate = None\<rparr>"
  let ?s = "\<lparr>arg_lowercase_tags = False, arg_toread_tag = ''toread'', arg_collection_id = 0,
          arg_readlater_collection_id = None, arg_skip_existing = True,
          arg_merge_tags = False, arg_limit = None, arg_dry_run = False\<rparr>"
  let ?m = "\<lparr>arg_lowercase_tags = False, arg_toread_tag = ''toread'', arg_collection_id = 0,
          arg_readlater_collection_id = None, arg_skip_existing = True,
          arg_merge_tags = True, arg_limit = None, arg_dry_run = False\<rparr>"
  let ?st = "state0 ([] :: call list)"
  let ?proj = "map_sum id (\<lambda>st. (skipped_existing (counters st), updated (counters st),
                      created (counters st), processed (counters st), world (st :: call list loop_state)))"
  have f: "find_existing_raindrop ?c ?u [] = (Inr (Some ?item, Some 5), [Get ?u])"
    by (simp add: find_existing_raindrop_def recording_client_def found_items_def)
  have ls: "lookup_existing ?s ?c ?u (world ?st) = (Inr (Some ?item, Some 5), [Get ?u])"
    by (simp add: lookup_existing_def state0_def f)
  have lm: "lookup_existing ?m ?c ?u (world ?st) = (Inr (Some ?item, Some 5), [Get ?u])"
    by (simp add: lookup_existing_def state0_def f)
  have as: "reconcile_action ?s (Some ?item) (Some 5) = SKIP"
    by (simp add: reconcile_action_def truthy_item_def truthy_id_def)
  have am: "reconcile_action ?m (Some ?item) (Some 5) = MERGE 5 ?item"
    by (simp add: reconcile_action_def truthy_item_def truthy_id_def)
  have nz: "Some (5::int) \<noteq> Some 0"
    by simp
  from reconcile_decision_nonzero_id [of ?s ?c ?u ?st "Some ?item" "Some 5" "[Get ?u]" ?pl 5 ?item]
    ls as nz
  have "reconcile ?s ?c ?u ?pl ?st =
      Inr (?st\<lparr>counters :=
                 (counters ?st)\<lparr>skipped_existing := skipped_existing (counters ?st) + 1,
                               processed := processed (counters ?st) + 1\<rparr>,
               world := [Get ?u]\<rparr>)"
    by blast
  then have 1: "?proj (reconcile ?s ?c ?u ?pl ?st) = Inr (1, 0, 0, 1, [Get ?u])"
    by (simp add: state0_def stats0_def)
  from reconcile_decision_nonzero_id [of ?m ?c ?u ?st "Some ?item" "Some 5" "[Get ?u]" ?pl 5 ?item]
    lm am nz
  have "reconcile ?m ?c ?u ?pl ?st =
      (case update_raindrop ?c 5 ?pl ?item True [Get ?u] of
         (Inl e, w2) \<Rightarrow> Inl e
       | (Inr ok, w2) \<Rightarrow>
           Inr (?st\<lparr>counters :=
                      (count_write ok (\<lambda>s. s\<lparr>updated := updated s + 1\<rparr>) (counters ?st))
                        \<lparr>processed := processed (counters ?st) + 1\<rparr>,
                    world := w2\<rparr>))"
    by blast
  then have 2: "?proj (reconcile ?m ?c ?u ?pl ?st) =
      Inr (0, 1, 0, 1,
            [Get ?u,
             Put 5 \<lparr>u_tags = Some [''new'', ''old''], u_note = None, u_excerpt = None,
                     u_important = None\<rparr>])"
    by (simp add: update_raindrop_def build_update_body_def existing_tags_def empty_body_def
        recording_client_def found_items_def count_write_def state0_def stats0_def)
  from 1 2 show ?thesis by (intro conjI)
qed

subsection \<open>Loading the rules\<close>

lemma load_rule_bad: "\<not> rule_entry_ok r \<Longrightarrow> load_rule py_int r = Inl ValueError"
  by (auto simp: rule_entry_ok_def load_rule_def split: json.splits option.splits)

lemma load_rule_ok:
  assumes "rule_entry_ok r" and "integral_id r" and "\<And>n. py_int (JInt n) = Inr n"
  shows "load_rule py_int r = Inr (rule_of_entry r)"
  using assms
  by (auto simp: rule_entry_ok_def integral_id_def load_rule_def rule_of_entry_def
      split: json.splits option.splits)

lemma load_rules_integral:
  assumes "\<And>n. py_int (JInt n) = Inr n"
    and "\<forall>e \<in> set es. rule_entry_ok e \<longrightarrow> integral_id e"
  shows "load_rules py_int acc es =
     (if list_all rule_entry_ok es then Inr (acc @ map rule_of_entry es) else Inl ValueError)"
  using assms(2)
proof (induction es arbitrary: acc)
  case Nil
  show ?case by simp
next
  case (Cons e es)
  show ?case
  proof (cases "rule_entry_ok e")
    case True
    with Cons.prems have "integral_id e" by simp
    with True assms(1) have "load_rule py_int e = Inr (rule_of_entry e)"
      by (intro load_rule_ok)
    with True Cons show ?thesis by simp
  next
    case False
    then show ?thesis by (simp add: load_rule_bad)
  qed
qed

lemma load_rules_first_bad:
  assumes "\<forall>x \<in> set pre. \<exists>r. load_rule py_int x = Inr r" and "\<not> rule_entry_ok e"
  shows "load_rules py_int acc (pre @ e # post) = Inl ValueError"
  using assms(1)
proof (induction pre arbitrary: acc)
  case Nil
  from assms(2) show ?case by (simp add: load_rule_bad)
next
  case (Cons x pre)
  then obtain r where "load_rule py_int x = Inr r" by auto
  with Cons show ?case by simp
qed

text \<open>
  Claim C6, as the specification states it, fails: an entry whose list of tags is empty is
  malformed for the specification, and the code loads it as a rule that never matches.
\<close>

theorem empty_tag_list_counterexample:
  "\<not> spec_well_formed (JList [JObj [(''collection_id'', JInt 1), (''tags'', JList [])]])
   \<and> load_collection_map int_of_number
        (Some (JList [JObj [(''collection_id'', JInt 1), (''tags'', JList [])]]))
      = Inr [\<lparr>rule_collection_id = 1, rule_tags = [], rule_name = None\<rparr>]"
  by (simp add: spec_well_formed_def spec_entry_ok_def load_collection_map_def load_rule_def)

text \<open>
  Claim C6, amended. Without a path \<open>load_collection_map\<close> returns no rules. It raises
  \<open>ValueError\<close> when the input is not a list, and at the first entry that is not an object,
  lacks \<^verbatim>\<open>collection_id\<close> or \<^verbatim>\<open>tags\<close>, or whose \<^verbatim>\<open>tags\<close> is not a list of strings. An
  empty list of tags is accepted. For a list whose ids are JSON integers it raises
  \<open>ValueError\<close> if and only if some entry fails those checks, and otherwise returns the rules
  of the entries, in the order of the input.
\<close>

theorem load_collection_map_checks:
  "load_collection_map py_int None = Inr []
   \<and> ((\<forall>es. data \<noteq> JList es) \<longrightarrow> load_collection_map py_int (Some data) = Inl ValueError)
   \<and> ((\<forall>x \<in> set pre. \<exists>r. load_rule py_int x = Inr r) \<and> \<not> rule_entry_ok e \<longrightarrow>
        load_collection_map py_int (Some (JList (pre @ e # post))) = Inl ValueError)
   \<and> ((\<forall>n. py_int (JInt n) = Inr n) \<and> (\<forall>e \<in> set es. rule_entry_ok e \<longrightarrow> integral_id e) \<longrightarrow>
        load_collection_map py_int (Some (JList es)) =
          (if list_all rule_entry_ok es then Inr (map rule_of_entry es) else Inl ValueError))
   \<and> rule_entry_ok (JObj [(''collection_id'', cid), (''tags'', JList [])])"
proof (intro conjI impI)
  show "load_collection_map py_int None = Inr []"
    by (simp add: load_collection_map_def)
  show "load_collection_map py_int (Some data) = Inl ValueError" if "\<forall>es. data \<noteq> JList es"
    using that by (cases data) (simp_all add: load_collection_map_def)
  show "load_collection_map py_int (Some (JList (pre @ e # post))) = Inl ValueError"
    if "(\<forall>x \<in> set pre. \<exists>r. load_rule py_int x = Inr r) \<and> \<not> rule_entry_ok e"
    using that by (simp add: load_collection_map_def load_rules_first_bad)
  show "load_collection_map py_int (Some (JList es)) =
          (if list_all rule_entry_ok es then Inr (map rule_of_entry es) else Inl ValueError)"
    if "(\<forall>n. py_int (JInt n) = Inr n) \<and> (\<forall>e \<in> set es. rule_entry_ok e \<longrightarrow> integral_id e)"
    using that load_rules_integral [of py_int es "[]"]
    by (simp add: load_collection_map_def)
  show "rule_entry_ok (JObj [(''collection_id'', cid), (''tags'', JList [])])"
    by (simp add: rule_entry_ok_def)
qed


text \<open>
  The rule of the smoke test followed by a rule without tags loads as two rules in that
  order; an object in place of the list, and a tag that is a number, raise \<open>ValueError\<close>.
\<close>

theorem load_collection_map_checks_witness:
  "load_collection_map int_of_number (Some (JObj [])) = Inl ValueError
   \<and> load_collection_map int_of_number
        (Some (JList
          ([JObj [(''collection_id'', JInt 555),
                  (''tags'', JList [JStr ''work'', JStr ''project-x'']),
                  (''name'', JStr ''Work'')]]
           @ JObj [(''collection_id'', JInt 2), (''tags'', JList [JStr ''a'', JInt 3])] # [])))
      = Inl ValueError
   \<and> load_collection_map int_of_number
        (Some (JList
          [JObj [(''collection_id'', JInt 555),
                 (''tags'', JList [JStr ''work'', JStr ''project-x'']),
                 (''name'', JStr ''Work'')],
           JObj [(''collection_id'', JInt 1), (''tags'', JList [])]]))
      = Inr [\<lparr>rule_collection_id = 555, rule_tags = [''work'', ''project-x''],
               rule_name = Some (JStr ''Work'')\<rparr>,
             \<lparr>rule_collection_id = 1, rule_tags = [], rule_name = None\<rparr>]"
proof -
  let ?g = "JObj [(''collection_id'', JInt 555),
                  (''tags'', JList [JStr ''work'', JStr ''project-x'']),
                  (''name'', JStr ''Work'')]"
  let ?bad = "JObj [(''collection_id'', JInt 2), (''tags'', JList [JStr ''a'', JInt 3])]"
  let ?g2 = "JObj [(''collection_id'', JInt 1), (''tags'', JList [])]"
  note th = load_collection_map_checks
    [of int_of_number "JObj []" "[?g]" ?bad "[]" "[?g, ?g2]" "JInt 1"]
  have d: "\<forall>es. JObj [] \<noteq> JList es"
    by simp
  have p: "\<forall>x \<in> set [?g]. \<exists>r. load_rule int_of_number x = Inr r"
    by (simp add: load_rule_def)
  have b: "\<not> rule_entry_ok ?bad"
    by (simp add: rule_entry_ok_def)
  have i: "\<forall>n. int_of_number (JInt n) = Inr n"
    by simp
  have ok: "rule_entry_ok ?g" "rule_entry_ok ?g2"
    by (simp_all add: rule_entry_ok_def)
  have int: "integral_id ?g" "integral_id ?g2"
    by (simp_all add: integral_id_def)
  have h: "\<forall>e \<in> set [?g, ?g2]. rule_entry_ok e \<longrightarrow> integral_id e"
    using int by simp
  have r: "rule_of_entry ?g = \<lparr>rule_collection_id = 555, rule_tags = [''work'', ''project-x''],
               rule_name = Some (JStr ''Work'')\<rparr>"
    "rule_of_entry ?g2 = \<lparr>rule_collection_id = 1, rule_tags = [], rule_name = None\<rparr>"
    by (simp_all add: rule_of_entry_def)
  from th d have 1: "load_collection_map int_of_number (Some (JObj [])) = Inl ValueError"
    by blast
  from th p b have 2: "load_collection_map int_of_number (Some (JList ([?g] @ ?bad # []))) =
      Inl ValueError"
    by blast
  from th i h have "load_collection_map int_of_number (Some (JList [?g, ?g2])) =
      (if list_all rule_entry_ok [?g, ?g2] then Inr (map rule_of_entry [?g, ?g2])
       else Inl ValueError)"
    by blast
  with ok r have 3: "load_collection_map int_of_number (Some (JList [?g, ?g2])) =
      Inr [\<lparr>rule_collection_id = 555, rule_tags = [''work'', ''project-x''],
               rule_name = Some (JStr ''Work'')\<rparr>,
             \<lparr>rule_collection_id = 1, rule_tags = [], rule_name = None\<rparr>]"
    by simp
  from 1 2 3 show ?thesis by (intro conjI)
qed

subsection \<open>Duplicates within a batch\<close>

lemma process_entry_duplicate:
  "get_nonempty entry ''href'' = Some h \<Longrightarrow> h \<in> seen_links st \<Longrightarrow>
   process_entry lower a rules client st entry = Inr (bump_duplicate st)"
  by (simp add: process_entry_def bump_duplicate_def)

lemma reconcile_counts:
  assumes "reconcile a client href pl st = Inr st'"
  shows "seen_links st' = seen_links st \<and> processed (counters st') = processed (counters st) + 1
    \<and> duplicate_input (counters st') = duplicate_input (counters st)"
  using assms
  by (auto simp: reconcile_def count_write_def
      split: prod.splits sum.splits action.splits)

lemma process_entry_cases:
  assumes "process_entry lower a rules client st entry = Inr st'"
  shows "(get_nonempty entry ''href'' = None \<and> st' = st)
    \<or> (\<exists>h. get_nonempty entry ''href'' = Some h \<and> h \<in> seen_links st \<and> st' = bump_duplicate st)
    \<or> (\<exists>h. get_nonempty entry ''href'' = Some h \<and> h \<notin> seen_links st
          \<and> seen_links st' = insert h (seen_links st)
          \<and> processed (counters st') = processed (counters st) + 1
          \<and> duplicate_input (counters st') = duplicate_input (counters st))"
proof (cases "get_nonempty entry ''href''")
  case None
  with assms show ?thesis by (simp add: process_entry_def)
next
  case (Some h)
  show ?thesis
  proof (cases "h \<in> seen_links st")
    case True
    with Some assms show ?thesis by (simp add: process_entry_duplicate)
  next
    case False
    let ?st1 = "st\<lparr>seen_links := insert h (seen_links st)\<rparr>"
    from assms Some False obtain pl where
      pl: "pinboard_to_raindrop_payload lower entry a rules = Inr pl"
      and r: "(if arg_dry_run a
               then Inr (?st1\<lparr>counters :=
                          (counters ?st1)\<lparr>processed := processed (counters ?st1) + 1\<rparr>\<rparr>)
               else reconcile a client h pl ?st1) = Inr st'"
      by (auto simp: process_entry_def Let_def split: sum.splits)
    have "seen_links st' = insert h (seen_links st)
          \<and> processed (counters st') = processed (counters st) + 1
          \<and> duplicate_input (counters st') = duplicate_input (counters st)"
    proof (cases "arg_dry_run a")
      case True
      with r show ?thesis by auto
    next
      case False
      with r have "reconcile a client h pl ?st1 = Inr st'" by simp
      from reconcile_counts [OF this] show ?thesis by simp
    qed
    with Some False show ?thesis by simp
  qed
qed


lemma main_loop_inv:
  assumes "main_loop lower a rules client st batch = Inr st'" and "loop_inv st"
  shows "loop_inv st' \<and> seen_links st' \<subseteq> seen_links st \<union> hrefs batch
    \<and> processed (counters st') + duplicate_input (counters st')
        \<le> processed (counters st) + duplicate_input (counters st) + length batch"
  using assms
proof (induction batch arbitrary: st)
  case Nil
  then show ?case by simp
next
  case (Cons entry batch)
  show ?case
  proof (cases "limit_reached a (counters st)")
    case True
    with Cons.prems show ?thesis by simp
  next
    case False
    with Cons.prems obtain st1 where
      p: "process_entry lower a rules client st entry = Inr st1"
      and m: "main_loop lower a rules client st1 batch = Inr st'"
      by (auto split: sum.splits)
    from process_entry_cases [OF p] Cons.prems(2)
    have 1: "loop_inv st1 \<and> seen_links st1 \<subseteq> seen_links st \<union> hrefs [entry]
      \<and> processed (counters st1) + duplicate_input (counters st1)
          \<le> processed (counters st) + duplicate_input (counters st) + 1"
      by (auto simp: loop_inv_def bump_duplicate_def hrefs_def)
    then have "loop_inv st1" by simp
    from Cons.IH [OF m this] 1 show ?thesis
      by (auto simp: hrefs_def)
  qed
qed

lemma loop_inv_state0: "loop_inv (state0 w)"
  by (simp add: loop_inv_def state0_def stats0_def)


text \<open>
  Claim C9, as the specification states it, fails when the limit on processed records is
  reached: the loop stops before the repeated link is looked at, and the duplicate is not
  counted. Here the limit is 1, in a dry run, and the batch holds the same link twice.
\<close>

theorem duplicate_after_limit_counterexample:
  "map_sum id (\<lambda>st. (processed (counters st), duplicate_input (counters st), world st))
     (main_loop ascii_lower
        \<lparr>arg_lowercase_tags = False, arg_toread_tag = ''toread'', arg_collection_id = 0,
          arg_readlater_collection_id = None, arg_skip_existing = True,
          arg_merge_tags = False, arg_limit = Some 1, arg_dry_run = True\<rparr>
        [] (recording_client lookup_down True) (state0 [])
        [[''href'' \<mapsto> ''https://example.com''], [''href'' \<mapsto> ''https://example.com'']])
   = Inr (1, 0, [])"
  by (simp add: process_entry_def get_nonempty_def pinboard_to_raindrop_payload_def Let_def
      limit_reached_def state0_def stats0_def)

text \<open>
  Claim C9, amended. An entry that the loop reaches (the limit on processed records is not
  yet reached) and whose link was already seen in this run adds one to the duplicate counter
  and does nothing else: the world, the set of seen links and every other counter stay as
  they were, so the entry is neither looked up nor written nor counted as processed. Once
  the limit is reached the loop stops and the remaining entries are not counted at all. A
  run that starts with no link seen and ends without an exception has processed each
  distinct link once: the number of processed records is the number of distinct links seen,
  all of them links of the batch, and the processed and the duplicate records together are
  at most the entries of the batch.
\<close>

theorem duplicates_within_batch:
  "(get_nonempty entry ''href'' = Some h \<and> h \<in> seen_links st \<longrightarrow>
      process_entry lower a rules client st entry = Inr (bump_duplicate st)
      \<and> (\<not> limit_reached a (counters st) \<longrightarrow>
           main_loop lower a rules client st (entry # rest) =
             main_loop lower a rules client (bump_duplicate st) rest)
      \<and> (limit_reached a (counters st) \<longrightarrow>
           main_loop lower a rules client st (entry # rest) = Inr st))
   \<and> world (bump_duplicate st) = world st
   \<and> seen_links (bump_duplicate st) = seen_links st
   \<and> counters (bump_duplicate st) =
       (counters st)\<lparr>duplicate_input := duplicate_input (counters st) + 1\<rparr>
   \<and> (main_loop lower a rules client (state0 w) batch = Inr st' \<longrightarrow>
        finite (seen_links st')
        \<and> processed (counters st') = card (seen_links st')
        \<and> seen_links st' \<subseteq> hrefs batch
        \<and> processed (counters st') + duplicate_input (counters st') \<le> length batch)"
proof (intro conjI impI)
  assume h: "get_nonempty entry ''href'' = Some h \<and> h \<in> seen_links st"
  then show p: "process_entry lower a rules client st entry = Inr (bump_duplicate st)"
    by (simp add: process_entry_duplicate)
  show "main_loop lower a rules client st (entry # rest) =
          main_loop lower a rules client (bump_duplicate st) rest"
    if "\<not> limit_reached a (counters st)"
    using that p by simp
  show "main_loop lower a rules client st (entry # rest) = Inr st"
    if "limit_reached a (counters st)"
    using that by simp
next
  show "world (bump_duplicate st) = world st"
    "seen_links (bump_duplicate st) = seen_links st"
    "counters (bump_duplicate st) =
       (counters st)\<lparr>duplicate_input := duplicate_input (counters st) + 1\<rparr>"
    by (simp_all add: bump_duplicate_def)
next
  assume m: "main_loop lower a rules client (state0 w) batch = Inr st'"
  note i = main_loop_inv [OF m loop_inv_state0]
  from i show "finite (seen_links st')" "processed (counters st') = card (seen_links st')"
    by (simp_all add: loop_inv_def)
  from i show "seen_links st' \<subseteq> hrefs batch"
    by (simp add: state0_def)
  from i show "processed (counters st') + duplicate_input (counters st') \<le> length batch"
    by (simp add: state0_def stats0_def)
qed


text \<open>
  A batch that holds the same link twice, with skipping on and a service that holds
  nothing: one search, one creation, one duplicate.
\<close>

theorem duplicates_within_batch_witness:
  "main_loop ascii_lower
     \<lparr>arg_lowercase_tags = False, arg_toread_tag = ''toread'', arg_collection_id = 0,
       arg_readlater_collection_id = None, arg_skip_existing = True,
       arg_merge_tags = False, arg_limit = None, arg_dry_run = False\<rparr>
     [] (recording_client (found_items []) True) (state0 [])
     [[''href'' \<mapsto> ''https://example.com''], [''href'' \<mapsto> ''https://example.com'']]
   = Inr \<lparr>seen_links = {''https://example.com''},
          counters = \<lparr>processed = 1, created = 1, skipped_existing = 0, updated = 0,
                       failed = 0, duplicate_input = 1\<rparr>,
          world = [Get ''https://example.com'',
                   Post \<lparr>p_link = ''https://example.com'', p_title = ''https://example.com'',
                          p_tags = [], p_important = False, p_collection = 0,
                          p_pleaseParse_mode = ''tags'', p_note = None, p_excerpt = None,
                          p_created = None, p_lastUpdate = None\<rparr>]\<rparr>
   \<and> (1::nat) = card {''https://example.com''}
   \<and> (1::nat) + 1 \<le> length [[''href'' \<mapsto> ''https://example.com''],
                                 [''href'' \<mapsto> ''https://example.com'']]"
proof -
  let ?u = "''https://example.com''"
  let ?e = "[''href'' \<mapsto> ?u] :: entry"
  let ?a = "\<lparr>arg_lowercase_tags = False, arg_toread_tag = ''toread'', arg_collection_id = 0,
       arg_readlater_collection_id = None, arg_skip_existing = True,
       arg_merge_tags = False, arg_limit = None, arg_dry_run = False\<rparr>"
  let ?c = "recording_client (found_items []) True"
  let ?pl = "\<lparr>p_link = ?u, p_title = ?u,
                          p_tags = [], p_important = False, p_collection = 0,
                          p_pleaseParse_mode = ''tags'', p_note = None, p_excerpt = None,
                          p_created = None, p_lastUpdate = None\<rparr>"
  let ?st1 = "\<lparr>seen_links = {?u},
          counters = \<lparr>processed = 1, created = 1, skipped_existing = 0, updated = 0,
                       failed = 0, duplicate_input = 0\<rparr>,
          world = [Get ?u, Post ?pl]\<rparr>"
  let ?st2 = "\<lparr>seen_links = {?u},
          counters = \<lparr>processed = 1, created = 1, skipped_existing = 0, updated = 0,
                       failed = 0, duplicate_input = 1\<rparr>,
          world = [Get ?u, Post ?pl]\<rparr>"
  have pl: "pinboard_to_raindrop_payload ascii_lower ?e ?a [] = Inr ?pl"
    by (simp add: pinboard_to_raindrop_payload_def Let_def get_nonempty_def normalize_tags_def
        select_collection_id_def)
  have f: "find_existing_raindrop ?c ?u [] = (Inr (None, None), [Get ?u])"
    by (simp add: find_existing_raindrop_def recording_client_def found_items_def)
  let ?st0 = "\<lparr>seen_links = {?u}, counters = stats0, world = ([] :: call list)\<rparr>"
  have lk: "lookup_existing ?a ?c ?u (world ?st0) = (Inr (None, None), [Get ?u])"
    by (simp add: lookup_existing_def f)
  have act: "reconcile_action ?a None None = CREATE"
    by (rule reconcile_action_not_found)
  have cr: "create_raindrop ?c ?pl [Get ?u] = (Inr True, [Get ?u, Post ?pl])"
    by (simp add: create_raindrop_def recording_client_def)
  have r: "reconcile ?a ?c ?u ?pl ?st0 = Inr ?st1"
    unfolding reconcile_unfold [OF lk] act
    by (simp add: cr count_write_def stats0_def)
  have p: "process_entry ascii_lower ?a [] ?c (state0 []) ?e = Inr ?st1"
    by (simp add: process_entry_def get_nonempty_def state0_def pl r)
  have l0: "\<not> limit_reached ?a (counters (state0 ([] :: call list)))"
    and l1: "\<not> limit_reached ?a (counters ?st1)"
    by (simp_all add: limit_reached_def)
  have g: "get_nonempty ?e ''href'' = Some ?u \<and> ?u \<in> seen_links ?st1"
    by (simp add: get_nonempty_def)
  have b: "bump_duplicate ?st1 = ?st2"
    by (simp add: bump_duplicate_def)
  note th = duplicates_within_batch [of ?e ?u ?st1 ascii_lower ?a "[]" ?c "[]" "[]" "[?e, ?e]" ?st2]
  from th g l1 have "main_loop ascii_lower ?a [] ?c ?st1 [?e] = main_loop ascii_lower ?a [] ?c (bump_duplicate ?st1) []"
    by blast
  then have m1: "main_loop ascii_lower ?a [] ?c ?st1 [?e] = Inr ?st2"
    unfolding b by simp
  have m: "main_loop ascii_lower ?a [] ?c (state0 []) [?e, ?e] = Inr ?st2"
    using l0 p m1 by simp
  from th m have "processed (counters ?st2) = card (seen_links ?st2)"
    and "processed (counters ?st2) + duplicate_input (counters ?st2) \<le> length [?e, ?e]"
    by blast+
  then have c: "(1::nat) = card {?u}" and d: "(1::nat) + 1 \<le> length [?e, ?e]"
    by simp_all
  from m c d show ?thesis by (intro conjI)
qed

end
